theory Spec2Isabelle
  imports Main "HOL-Library.Word" "HOL-Library.Multiset" "HOL-Library.Sublist"
begin

section \<open>Connection establishment of the Databricks SQL driver (connector.go)\<close>

text \<open>
  A shallow embedding of \<^verbatim>\<open>connector.go\<close>: the connector's \<^verbatim>\<open>Connect\<close>
  method, \<^verbatim>\<open>NewConnector\<close> and the option constructors. Packages the file imports
  (\<^verbatim>\<open>client\<close>, \<^verbatim>\<open>sentinel\<close>, \<^verbatim>\<open>cli_service\<close>, \<^verbatim>\<open>config\<close>) and the methods
  of \<^verbatim>\<open>conn\<close> are collaborators: their behaviour is a parameter of the model
  (record \<open>env\<close>), and the effects they have on the outside world are an explicit
  state \<open>'w\<close> passed through every call. Go pointers are \<open>option\<close> values
  (\<open>None\<close> is \<^verbatim>\<open>nil\<close>), and a nil-pointer dereference is the outcome \<open>Panics\<close>.
  The logging calls of \<^verbatim>\<open>Connect\<close> have no influence on its control flow or its
  results and are left out.
\<close>

subsection \<open>Data\<close>

type_synonym byte = "8 word"
type_synonym TIdentifier = string
type_synonym duration = int
type_synonym TProtocolVersion = int

text \<open>
  \<^verbatim>\<open>config.Config\<close>, with the fields \<^verbatim>\<open>connector.go\<close> reads or writes. A Go
  \<^verbatim>\<open>map[string]string\<close> is a finite partial function; the nil map and the empty map
  are the same for a \<^verbatim>\<open>range\<close> loop.
\<close>

record Config =
  Host :: string
  Port :: int
  AccessToken :: string
  HTTPPath :: string
  MaxRows :: int
  QueryTimeoutSeconds :: int
  Catalog :: string
  Schema :: string
  UserAgentEntry :: string
  SessionParams :: "string \<rightharpoonup> string"
  ThriftProtocolVersion :: TProtocolVersion
  CanUseMultipleCatalogs :: bool
  PollInterval :: duration
  DefaultTimeout :: duration

text \<open>
  The connector holds a pointer to its configuration; \<^verbatim>\<open>NewConnector\<close>, the one
  place of the file that makes a connector, always sets it.
\<close>

record connector =
  cfg :: Config

text \<open>
  The Thrift structures, with the fields \<^verbatim>\<open>Connect\<close> sets or reads; a field it
  does not mention keeps its zero value. An optional field is a pointer.
\<close>

record TNamespace =
  CatalogName :: "TIdentifier option"
  SchemaName :: "TIdentifier option"

record TOpenSessionReq =
  ClientProtocol :: TProtocolVersion
  Configuration :: "string \<rightharpoonup> string"
  InitialNamespace :: "TNamespace option"
  CanUseMultipleCatalogs_ptr :: "bool option"

record THandleIdentifier =
  GUID :: "byte list"

record TSessionHandle =
  SessionId :: "THandleIdentifier option"

record TOpenSessionResp =
  SessionHandle :: "TSessionHandle option"

text \<open>
  A Go \<^verbatim>\<open>error\<close> value that is not nil. \<open>Foreign\<close> is an error made by a
  collaborator, \<open>ErrorsNew\<close> is \<^verbatim>\<open>errors.New(msg)\<close>, and \<open>Wrapped cause msg\<close>
  is an error that wraps \<open>cause\<close> with the message \<open>msg\<close>.
\<close>

datatype error = Foreign string | ErrorsNew string | Wrapped error string

text \<open>
  Modelled from the spec: \<^verbatim>\<open>wrapErr\<close> and \<^verbatim>\<open>wrapErrf\<close> live in a file of the
  package that is not among the sources. The spec says that a wrapped error keeps its
  original cause and carries the added context: \<^verbatim>\<open>wrapErr(cause, msg)\<close> is the
  wrapping of \<open>cause\<close> with \<open>msg\<close>, both parts readable.
\<close>

definition wrapErr :: "error \<Rightarrow> string \<Rightarrow> error" where
  "wrapErr err msg = Wrapped err msg"

text \<open>
  A value of the interface type \<^verbatim>\<open>any\<close>, as \<^verbatim>\<open>sentinel.Watch\<close> returns it: the nil
  interface, a \<^verbatim>\<open>*cli_service.TOpenSessionResp\<close> (which may be a nil pointer of that
  type), or a value of another dynamic type (named by a tag).
\<close>

datatype any = AnyNil | AnyOpenSessionResp "TOpenSessionResp option" | AnyOther string

record 't conn =
  conn_id :: string
  conn_cfg :: Config
  conn_client :: 't
  conn_session :: TOpenSessionResp

text \<open>\<^verbatim>\<open>sentinel.Sentinel\<close>: the one field \<^verbatim>\<open>Connect\<close> sets.\<close>

record 'w Sentinel =
  OnDoneFn :: "any \<Rightarrow> 'w \<Rightarrow> (any \<times> error option) \<times> 'w"

text \<open>
  The collaborators. Each takes the world and returns the changed world beside Go's
  result tuple. \<open>GetSessionId\<close> is the generated accessor of \<^verbatim>\<open>*TSessionHandle\<close>,
  called on a receiver that may be nil: \<open>None\<close> when the call panics, otherwise the
  pointer it returns. \<open>ExecContext\<close> is the method of the connection; \<^verbatim>\<open>Connect\<close>
  always gives it the empty list of arguments, and drops the \<^verbatim>\<open>driver.Result\<close>.
\<close>

record ('c, 't, 'w) env =
  InitThriftClient :: "Config \<Rightarrow> 'w \<Rightarrow> ('t \<times> error option) \<times> 'w"
  OpenSession :: "'t \<Rightarrow> 'c \<Rightarrow> TOpenSessionReq \<Rightarrow> 'w \<Rightarrow> (TOpenSessionResp option \<times> error option) \<times> 'w"
  Watch :: "'w Sentinel \<Rightarrow> 'c \<Rightarrow> duration \<Rightarrow> duration \<Rightarrow> 'w \<Rightarrow> (int \<times> any \<times> error option) \<times> 'w"
  GetSessionId :: "TSessionHandle option \<Rightarrow> THandleIdentifier option option"
  ExecContext :: "'t conn \<Rightarrow> 'c \<Rightarrow> string \<Rightarrow> 'w \<Rightarrow> error option \<times> 'w"

text \<open>
  The calls \<^verbatim>\<open>Connect\<close> makes to collaborators with effects, in the order it makes
  them, each with what it was given and the error it came back with.
\<close>

datatype ('c, 't, 'w) call =
    InitThriftClient_call Config "error option"
  | Watch_call "'w Sentinel" 'c duration duration any "error option"
  | ExecContext_call "'t conn" 'c string "error option"

text \<open>What a Go function does: it returns its results, or it panics.\<close>

datatype 'a go = Returns 'a | Panics

subsection \<open>Formatting\<close>

text \<open>\<^verbatim>\<open>%d\<close> of \<^verbatim>\<open>fmt.Sprintf\<close> on an \<^verbatim>\<open>int\<close>: decimal digits, a minus sign first.\<close>

fun digits :: "nat \<Rightarrow> string" where
  "digits n =
     (if n < 10 then [''0123456789'' ! n]
      else digits (n div 10) @ [''0123456789'' ! (n mod 10)])"

declare digits.simps [simp del]

definition fmt_d :: "int \<Rightarrow> string" where
  "fmt_d i = (if i < 0 then CHR ''-'' # digits (nat (- i)) else digits (nat i))"

text \<open>
  Line 71: \<^verbatim>\<open>fmt.Sprintf("SET `%s` = `%s`;", k, v)\<close>. The verb \<^verbatim>\<open>%s\<close> copies a
  string as it is.
\<close>

definition setStmt :: "string \<Rightarrow> string \<Rightarrow> string" where
  "setStmt k v = ''SET `'' @ k @ ''` = `'' @ v @ ''`;''"

text \<open>
  Line 53: the message \<^verbatim>\<open>"error connecting: host=%s port=%d, httpPath=%s"\<close> filled
  with the configuration's host, port and HTTP path.
\<close>

definition connecting_msg :: "Config \<Rightarrow> string" where
  "connecting_msg c =
     ''error connecting: host='' @ Host c @ '' port='' @ fmt_d (Port c) @
     '', httpPath='' @ HTTPPath c"

definition wrapErrf_connecting :: "error \<Rightarrow> Config \<Rightarrow> error" where
  "wrapErrf_connecting err c = wrapErr err (connecting_msg c)"

subsection \<open>Session identity rendering\<close>

text \<open>
  Modelled from the spec: the hexadecimal text of a byte sequence, two lower-case
  digits per byte, which the grouped hexadecimal of the identity rendering is made of.
\<close>

definition hexdigit :: "nat \<Rightarrow> char" where
  "hexdigit n = ''0123456789abcdef'' ! n"

definition hex_byte :: "byte \<Rightarrow> string" where
  "hex_byte b = [hexdigit (unat b div 16), hexdigit (unat b mod 16)]"

definition hex :: "byte list \<Rightarrow> string" where
  "hex bts = concat (map hex_byte bts)"

text \<open>
  Modelled from the spec: \<^verbatim>\<open>client.SprintGuid\<close> is not among the sources. The spec
  describes it as a deterministic conversion from the fixed-size binary session
  identity to a canonical text form, grouped hexadecimal. The model groups the sixteen
  bytes of a GUID as 4-2-2-2-6, the groups joined by a hyphen.
\<close>

definition SprintGuid :: "byte list \<Rightarrow> string" where
  "SprintGuid bts =
     hex (take 4 bts) @ ''-'' @ hex (take 2 (drop 4 bts)) @ ''-'' @
     hex (take 2 (drop 6 bts)) @ ''-'' @ hex (take 2 (drop 8 bts)) @ ''-'' @
     hex (drop 10 bts)"

subsection \<open>Connect\<close>

text \<open>Lines 27-34 and 42-45: the initial namespace of the request.\<close>

definition initial_namespace :: "Config \<Rightarrow> TNamespace" where
  "initial_namespace c =
     (let catalogName = (if Catalog c \<noteq> [] then Some (Catalog c) else None);
          schemaName = (if Schema c \<noteq> [] then Some (Schema c) else None)
      in \<lparr>CatalogName = catalogName, SchemaName = schemaName\<rparr>)"

text \<open>Lines 39-47: the request the closure hands to \<^verbatim>\<open>tclient.OpenSession\<close>.\<close>

definition open_session_req :: "Config \<Rightarrow> TOpenSessionReq" where
  "open_session_req c =
     \<lparr>ClientProtocol = ThriftProtocolVersion c,
      Configuration = Map.empty,
      InitialNamespace = Some (initial_namespace c),
      CanUseMultipleCatalogs_ptr = Some (CanUseMultipleCatalogs c)\<rparr>"

text \<open>
  Lines 37-49: the sentinel. Its \<^verbatim>\<open>OnDoneFn\<close> ignores its argument and returns what
  \<^verbatim>\<open>tclient.OpenSession\<close> returns, the response pointer converted to \<^verbatim>\<open>any\<close>.
\<close>

definition open_session_sentinel ::
  "('c, 't, 'w) env \<Rightarrow> 't \<Rightarrow> 'c \<Rightarrow> Config \<Rightarrow> 'w Sentinel" where
  "open_session_sentinel e tclient ctx c =
     \<lparr>OnDoneFn = (\<lambda>statusResp w.
        (case OpenSession e tclient ctx (open_session_req c) w of
           ((resp, err), w') \<Rightarrow> ((AnyOpenSessionResp resp, err), w')))\<rparr>"

text \<open>
  Lines 70-77: the loop over the session parameters. \<open>kvs\<close> is the sequence of
  entries in the order the \<^verbatim>\<open>range\<close> statement yields them. The result is the error
  the loop returns with (\<open>None\<close> when it runs to its end), the calls made, and the
  world.
\<close>

fun apply_params ::
  "('c, 't, 'w) env \<Rightarrow> 't conn \<Rightarrow> 'c \<Rightarrow> (string \<times> string) list \<Rightarrow> 'w \<Rightarrow>
     error option \<times> ('c, 't, 'w) call list \<times> 'w" where
  "apply_params e cn ctx [] w = (None, [], w)"
| "apply_params e cn ctx ((k, v) # kvs) w =
     (case ExecContext e cn ctx (setStmt k v) w of
        (Some err, w') \<Rightarrow> (Some err, [ExecContext_call cn ctx (setStmt k v) (Some err)], w')
      | (None, w') \<Rightarrow>
          (case apply_params e cn ctx kvs w' of
             (r, cs, w'') \<Rightarrow> (r, ExecContext_call cn ctx (setStmt k v) None # cs, w'')))"

text \<open>
  Go's \<^verbatim>\<open>range\<close> over a map yields every entry once, in an order the language leaves
  open and the runtime varies from one loop to the next. \<open>enumerates m kvs\<close>: the
  sequence \<open>kvs\<close> is one of the orders in which the entries of \<open>m\<close> can come.
\<close>

definition enumerates :: "(string \<rightharpoonup> string) \<Rightarrow> (string \<times> string) list \<Rightarrow> bool" where
  "enumerates m kvs = (distinct (map fst kvs) \<and> map_of kvs = m)"

text \<open>
  Lines 55-78: what \<^verbatim>\<open>Connect\<close> does with the result \<open>res\<close> of a \<^verbatim>\<open>Watch\<close> that
  returned no error. The expression \<^verbatim>\<open>session.SessionHandle.GetSessionId().GUID\<close>
  reads a field of \<^verbatim>\<open>session\<close>, calls the accessor on the handle and reads a field
  of what the accessor returns; each read through a nil pointer panics.
\<close>

definition establish ::
  "('c, 't, 'w) env \<Rightarrow> (string \<times> string) list \<Rightarrow> Config \<Rightarrow> 't \<Rightarrow> 'c \<Rightarrow> any \<Rightarrow> 'w \<Rightarrow>
     ('t conn option \<times> error option) go \<times> ('c, 't, 'w) call list \<times> 'w" where
  "establish e kvs c tclient ctx res w =
     (case res of
        AnyOpenSessionResp sp \<Rightarrow>
          (case sp of
             None \<Rightarrow> (Panics, [], w)
           | Some session \<Rightarrow>
               (case GetSessionId e (SessionHandle session) of
                  None \<Rightarrow> (Panics, [], w)
                | Some None \<Rightarrow> (Panics, [], w)
                | Some (Some h) \<Rightarrow>
                    (let cn = \<lparr>conn_id = SprintGuid (GUID h), conn_cfg = c,
                               conn_client = tclient, conn_session = session\<rparr>
                     in case apply_params e cn ctx kvs w of
                          (Some err, cs, w') \<Rightarrow> (Returns (None, Some err), cs, w')
                        | (None, cs, w') \<Rightarrow> (Returns (Some cn, None), cs, w'))))
      | _ \<Rightarrow> (Returns (None, Some (ErrorsNew ''databricks: invalid open session response'')),
               [], w))"

text \<open>
  Lines 21-79. \<open>kvs\<close> stands for the order in which this run's \<^verbatim>\<open>range\<close> statement
  yields the session parameters.
\<close>

definition Connect ::
  "('c, 't, 'w) env \<Rightarrow> (string \<times> string) list \<Rightarrow> connector \<Rightarrow> 'c \<Rightarrow> 'w \<Rightarrow>
     ('t conn option \<times> error option) go \<times> ('c, 't, 'w) call list \<times> 'w" where
  "Connect e kvs c ctx w =
     (case InitThriftClient e (cfg c) w of
        ((tclient, Some err), w1) \<Rightarrow>
          (Returns (None, Some (wrapErr err ''error initializing thrift client'')),
           [InitThriftClient_call (cfg c) (Some err)], w1)
      | ((tclient, None), w1) \<Rightarrow>
          (let sentinel = open_session_sentinel e tclient ctx (cfg c) in
           case Watch e sentinel ctx (PollInterval (cfg c)) (DefaultTimeout (cfg c)) w1 of
             ((status, res, Some err), w2) \<Rightarrow>
               (Returns (None, Some (wrapErrf_connecting err (cfg c))),
                [InitThriftClient_call (cfg c) None,
                 Watch_call sentinel ctx (PollInterval (cfg c)) (DefaultTimeout (cfg c))
                   res (Some err)],
                w2)
           | ((status, res, None), w2) \<Rightarrow>
               (case establish e kvs (cfg c) tclient ctx res w2 of
                  (r, cs, w3) \<Rightarrow>
                    (r,
                     InitThriftClient_call (cfg c) None #
                     Watch_call sentinel ctx (PollInterval (cfg c)) (DefaultTimeout (cfg c))
                       res None # cs,
                     w3))))"

text \<open>The parts of a run: what was returned, and the statements executed.\<close>

definition outcome ::
  "('t conn option \<times> error option) go \<times> ('c, 't, 'w) call list \<times> 'w \<Rightarrow>
     ('t conn option \<times> error option) go" where
  "outcome r = fst r"

definition calls ::
  "('t conn option \<times> error option) go \<times> ('c, 't, 'w) call list \<times> 'w \<Rightarrow>
     ('c, 't, 'w) call list" where
  "calls r = fst (snd r)"

fun executions :: "('c, 't, 'w) call list \<Rightarrow> (string \<times> error option) list" where
  "executions [] = []"
| "executions (ExecContext_call cn ctx s r # cs) = (s, r) # executions cs"
| "executions (InitThriftClient_call c r # cs) = executions cs"
| "executions (Watch_call s ctx p t res r # cs) = executions cs"

definition world ::
  "('t conn option \<times> error option) go \<times> ('c, 't, 'w) call list \<times> 'w \<Rightarrow> 'w" where
  "world r = snd (snd r)"

text \<open>
  What the collaborator \<^verbatim>\<open>ExecContext\<close> itself does with the statements of a sequence
  of entries, given one after the other on the connection \<open>cn\<close>, from the world \<open>w\<close>
  on: \<open>after_statements\<close> is the world it leaves behind, and \<open>result_at \<dots> i\<close> is the
  error the statement of entry \<open>i\<close> comes back with once the statements of the
  entries before it have been executed.
\<close>

definition after_statements ::
  "('c, 't, 'w) env \<Rightarrow> 't conn \<Rightarrow> 'c \<Rightarrow> (string \<times> string) list \<Rightarrow> 'w \<Rightarrow> 'w" where
  "after_statements e cn ctx kvs w =
     foldl (\<lambda>w' (k, v). snd (ExecContext e cn ctx (setStmt k v) w')) w kvs"

definition result_at ::
  "('c, 't, 'w) env \<Rightarrow> 't conn \<Rightarrow> 'c \<Rightarrow> (string \<times> string) list \<Rightarrow> 'w \<Rightarrow> nat \<Rightarrow>
     error option" where
  "result_at e cn ctx kvs w i =
     fst (ExecContext e cn ctx (setStmt (fst (kvs ! i)) (snd (kvs ! i)))
            (after_statements e cn ctx (take i kvs) w))"

subsection \<open>NewConnector and the options\<close>

text \<open>
  \<^verbatim>\<open>connOption\<close> is \<^verbatim>\<open>func(*config.Config)\<close>. A value of a Go function type is nil
  (\<open>None\<close>) or a function; called on the configuration, a function changes it and
  returns, or panics. Calling the nil function panics.
\<close>

type_synonym connOption = "(Config \<Rightarrow> Config go) option"

text \<open>Lines 93-95: the options are called in the order of the arguments.\<close>

fun apply_options :: "Config \<Rightarrow> connOption list \<Rightarrow> Config go" where
  "apply_options c [] = Returns c"
| "apply_options c (opt # options) =
     (case opt of
        None \<Rightarrow> Panics
      | Some f \<Rightarrow> (case f c of Panics \<Rightarrow> Panics | Returns c' \<Rightarrow> apply_options c' options))"

text \<open>
  Lines 89-99. \<^verbatim>\<open>config.WithDefaults\<close> is not among the sources; the configuration it
  returns is a parameter.
\<close>

definition NewConnector ::
  "Config \<Rightarrow> connOption list \<Rightarrow> (connector option \<times> error option) go" where
  "NewConnector WithDefaults options =
     (case apply_options WithDefaults options of
        Panics \<Rightarrow> Panics
      | Returns c \<Rightarrow> Returns (Some \<lparr>cfg = c\<rparr>, None))"

definition WithServerHostname :: "string \<Rightarrow> connOption" where
  "WithServerHostname host = Some (\<lambda>c. Returns (c\<lparr>Host := host\<rparr>))"

definition WithPort :: "int \<Rightarrow> connOption" where
  "WithPort port = Some (\<lambda>c. Returns (c\<lparr>Port := port\<rparr>))"

definition WithAccessToken :: "string \<Rightarrow> connOption" where
  "WithAccessToken token = Some (\<lambda>c. Returns (c\<lparr>AccessToken := token\<rparr>))"

definition WithHTTPPath :: "string \<Rightarrow> connOption" where
  "WithHTTPPath path = Some (\<lambda>c. Returns (c\<lparr>HTTPPath := path\<rparr>))"

definition WithMaxRows :: "int \<Rightarrow> connOption" where
  "WithMaxRows n = Some (\<lambda>c. Returns (if n \<noteq> 0 then c\<lparr>MaxRows := n\<rparr> else c))"

definition WithTimeout :: "int \<Rightarrow> connOption" where
  "WithTimeout n = Some (\<lambda>c. Returns (c\<lparr>QueryTimeoutSeconds := n\<rparr>))"

definition WithInitialNamespace :: "string \<Rightarrow> string \<Rightarrow> connOption" where
  "WithInitialNamespace catalog schema =
     Some (\<lambda>c. Returns (c\<lparr>Catalog := catalog, Schema := schema\<rparr>))"

definition WithUserAgentEntry :: "string \<Rightarrow> connOption" where
  "WithUserAgentEntry entry = Some (\<lambda>c. Returns (c\<lparr>UserAgentEntry := entry\<rparr>))"

definition WithSessionParams :: "(string \<rightharpoonup> string) \<Rightarrow> connOption" where
  "WithSessionParams params = Some (\<lambda>c. Returns (c\<lparr>SessionParams := params\<rparr>))"

text \<open>
  An option returns normally when it is not nil and returns on every configuration;
  \<open>applied opt c\<close> is the configuration such an option leaves.
\<close>

definition returns_normally :: "connOption \<Rightarrow> bool" where
  "returns_normally opt = (case opt of None \<Rightarrow> False | Some f \<Rightarrow> (\<forall>c. f c \<noteq> Panics))"

definition applied :: "connOption \<Rightarrow> Config \<Rightarrow> Config" where
  "applied opt c =
     (case opt of
        None \<Rightarrow> c
      | Some f \<Rightarrow> (case f c of Panics \<Rightarrow> c | Returns c' \<Rightarrow> c'))"

subsection \<open>Reading an error\<close>

text \<open>
  An error carries the connection target when it is a wrapping of a cause whose message
  holds the configured host, the port in decimal and the HTTP path.
\<close>

definition enriched :: "Config \<Rightarrow> error \<Rightarrow> bool" where
  "enriched c err =
     (case err of
        Wrapped cause msg \<Rightarrow>
          sublist (Host c) msg \<and> sublist (fmt_d (Port c)) msg \<and> sublist (HTTPPath c) msg
      | _ \<Rightarrow> False)"

subsection \<open>Concrete collaborators and configurations\<close>

text \<open>
  The accessor as the Thrift compiler writes it for Go: it reads the field
  \<^verbatim>\<open>SessionId\<close> of its receiver, so it panics on a nil receiver and returns the
  field otherwise.
\<close>

definition thrift_GetSessionId :: "TSessionHandle option \<Rightarrow> THandleIdentifier option option" where
  "thrift_GetSessionId p = (case p of None \<Rightarrow> None | Some h \<Rightarrow> Some (SessionId h))"

text \<open>
  What a concrete server has seen: the world of the concrete runs below is the list of
  the calls that reached the collaborators, each with what it was given.
\<close>

datatype seen =
    SeenInit Config
  | SeenWatch duration duration
  | SeenOpenSession TOpenSessionReq
  | SeenExec string

text \<open>
  A \<^verbatim>\<open>Watch\<close> that notes its poll interval and timeout, runs the sentinel's operation
  once and hands back its result.
\<close>

definition run_once ::
  "seen list Sentinel \<Rightarrow> 'c \<Rightarrow> duration \<Rightarrow> duration \<Rightarrow> seen list \<Rightarrow>
     (int \<times> any \<times> error option) \<times> seen list" where
  "run_once s ctx poll timeout w =
     (case OnDoneFn s AnyNil (w @ [SeenWatch poll timeout]) of
        ((res, err), w') \<Rightarrow> ((0, res, err), w'))"

text \<open>
  A server that notes every call. Client initialisation ends with \<open>init\<close>, the
  open-session call answers \<open>opened\<close>, and a statement \<open>s\<close> ends with \<open>fails s\<close>.
\<close>

definition server ::
  "error option \<Rightarrow> TOpenSessionResp option \<times> error option \<Rightarrow> (string \<Rightarrow> error option) \<Rightarrow>
     (unit, nat, seen list) env" where
  "server init opened fails =
     \<lparr>InitThriftClient = (\<lambda>c w. ((7, init), w @ [SeenInit c])),
      OpenSession = (\<lambda>t ctx req w. (opened, w @ [SeenOpenSession req])),
      Watch = run_once,
      GetSessionId = thrift_GetSessionId,
      ExecContext = (\<lambda>cn ctx s w. (fails s, w @ [SeenExec s]))\<rparr>"

definition guid0 :: "byte list" where
  "guid0 = [0x01, 0x23, 0x45, 0x67, 0x89, 0xab, 0xcd, 0xef,
            0x00, 0x11, 0x22, 0x33, 0x44, 0x55, 0x66, 0x77]"

definition guid1 :: "byte list" where
  "guid1 = [0x01, 0x23, 0x45, 0x67, 0x89, 0xab, 0xcd, 0xef,
            0x00, 0x11, 0x22, 0x33, 0x44, 0x55, 0x66, 0x78]"

definition session0 :: TOpenSessionResp where
  "session0 = \<lparr>SessionHandle = Some \<lparr>SessionId = Some \<lparr>GUID = guid0\<rparr>\<rparr>\<rparr>"

definition no_handle :: TOpenSessionResp where
  "no_handle = \<lparr>SessionHandle = None\<rparr>"

definition config0 :: "(string \<rightharpoonup> string) \<Rightarrow> Config" where
  "config0 params =
     \<lparr>Host = ''dbc.example.com'', Port = 443, AccessToken = ''t0ken'',
      HTTPPath = ''/sql/1.0/endpoints/e1'', MaxRows = 10000, QueryTimeoutSeconds = 0,
      Catalog = ''c1'', Schema = [], UserAgentEntry = [],
      SessionParams = params, ThriftProtocolVersion = 42245,
      CanUseMultipleCatalogs = True, PollInterval = 1000000000, DefaultTimeout = 60000000000\<rparr>"

definition params_ab :: "string \<rightharpoonup> string" where
  "params_ab = [''a'' \<mapsto> ''1'', ''b'' \<mapsto> ''2'']"

definition params_abc :: "string \<rightharpoonup> string" where
  "params_abc = [''a'' \<mapsto> ''1'', ''b'' \<mapsto> ''2'', ''c'' \<mapsto> ''3'']"

definition fails_on :: "string \<Rightarrow> error \<Rightarrow> string \<Rightarrow> error option" where
  "fails_on bad err s = (if s = bad then Some err else None)"

section \<open>Properties\<close>

subsection \<open>The parameter loop\<close>

lemma apply_params_None:
  "apply_params e cn ctx kvs w = (None, cs, w') \<Longrightarrow>
     cs = map (\<lambda>(k, v). ExecContext_call cn ctx (setStmt k v) None) kvs"
  by (induction kvs arbitrary: w cs) (auto split: prod.splits option.splits)

lemma apply_params_Some:
  "apply_params e cn ctx kvs w = (Some err, cs, w') \<Longrightarrow>
     \<exists>n<length kvs.
       cs = map (\<lambda>(k, v). ExecContext_call cn ctx (setStmt k v) None) (take n kvs) @
            [ExecContext_call cn ctx (setStmt (fst (kvs ! n)) (snd (kvs ! n))) (Some err)]"
proof (induction kvs arbitrary: w cs)
  case Nil
  then show ?case by simp
next
  case (Cons kv kvs)
  obtain k v where kv: "kv = (k, v)" by (cases kv)
  obtain r w1 where ex: "ExecContext e cn ctx (setStmt k v) w = (r, w1)"
    by (cases "ExecContext e cn ctx (setStmt k v) w")
  show ?case
  proof (cases r)
    case None
    obtain r2 cs2 w2 where rec: "apply_params e cn ctx kvs w1 = (r2, cs2, w2)"
      by (cases "apply_params e cn ctx kvs w1")
    from Cons.prems kv ex None rec
    have r2: "r2 = Some err" and cs: "cs = ExecContext_call cn ctx (setStmt k v) None # cs2"
      and w2: "w2 = w'"
      by simp_all
    from Cons.IH [OF rec [unfolded r2 w2]] obtain n where
      n: "n < length kvs"
      "cs2 = map (\<lambda>(k, v). ExecContext_call cn ctx (setStmt k v) None) (take n kvs) @
            [ExecContext_call cn ctx (setStmt (fst (kvs ! n)) (snd (kvs ! n))) (Some err)]"
      by blast
    show ?thesis
      by (rule exI [of _ "Suc n"]) (simp add: n cs kv)
  next
    case (Some a)
    with Cons.prems kv ex have "a = err" "cs = [ExecContext_call cn ctx (setStmt k v) (Some err)]"
      by auto
    then show ?thesis
      by (intro exI [of _ 0]) (simp add: kv)
  qed
qed

lemma executions_map_None:
  "executions (map (\<lambda>(k, v). ExecContext_call cn ctx (setStmt k v) None) kvs) =
     map (\<lambda>(k, v). (setStmt k v, None)) kvs"
  by (induction kvs) auto

lemma executions_append:
  "executions (xs @ ys) = executions xs @ executions ys"
  by (induction xs rule: executions.induct) auto

lemma statements_map_None:
  "map fst (executions (map (\<lambda>(k, v). ExecContext_call cn ctx (setStmt k v) None) kvs)) =
     map (\<lambda>(k, v). setStmt k v) kvs"
  by (induction kvs) auto

text \<open>
  The loop against the collaborator: it executes the statements in the order of
  \<open>kvs\<close>, each in the world the one before left, and stops at the first that comes
  back with an error.
\<close>

lemma after_statements_Nil: "after_statements e cn ctx [] w = w"
  by (simp add: after_statements_def)

lemma after_statements_Cons:
  "after_statements e cn ctx ((k, v) # kvs) w =
     after_statements e cn ctx kvs (snd (ExecContext e cn ctx (setStmt k v) w))"
  by (simp add: after_statements_def)

lemma after_statements_take_Suc:
  "n < length kvs \<Longrightarrow>
     after_statements e cn ctx (take (Suc n) kvs) w =
       snd (ExecContext e cn ctx (setStmt (fst (kvs ! n)) (snd (kvs ! n)))
              (after_statements e cn ctx (take n kvs) w))"
  by (simp add: after_statements_def take_Suc_conv_app_nth case_prod_unfold)

lemma result_at_0:
  "result_at e cn ctx ((k, v) # kvs) w 0 = fst (ExecContext e cn ctx (setStmt k v) w)"
  by (simp add: result_at_def after_statements_Nil)

lemma result_at_Suc:
  "result_at e cn ctx ((k, v) # kvs) w (Suc i) =
     result_at e cn ctx kvs (snd (ExecContext e cn ctx (setStmt k v) w)) i"
  by (simp add: result_at_def after_statements_Cons)

lemma apply_params_all_succeed:
  "\<forall>i<length kvs. result_at e cn ctx kvs w i = None \<Longrightarrow>
     apply_params e cn ctx kvs w =
       (None, map (\<lambda>(k, v). ExecContext_call cn ctx (setStmt k v) None) kvs,
        after_statements e cn ctx kvs w)"
proof (induction kvs arbitrary: w)
  case Nil
  then show ?case by (simp add: after_statements_Nil)
next
  case (Cons kv kvs)
  obtain k v where kv: "kv = (k, v)" by (cases kv)
  obtain r w1 where ex: "ExecContext e cn ctx (setStmt k v) w = (r, w1)"
    by (cases "ExecContext e cn ctx (setStmt k v) w")
  from Cons.prems have "result_at e cn ctx (kv # kvs) w 0 = None" by simp
  with kv ex have r: "r = None" by (simp add: result_at_0)
  have "\<forall>i<length kvs. result_at e cn ctx kvs w1 i = None"
  proof (intro allI impI)
    fix i assume "i < length kvs"
    with Cons.prems have "result_at e cn ctx (kv # kvs) w (Suc i) = None" by simp
    with kv ex show "result_at e cn ctx kvs w1 i = None" by (simp add: result_at_Suc)
  qed
  from Cons.IH [OF this] kv ex r show ?case
    by (simp add: after_statements_Cons)
qed

lemma apply_params_first_failure:
  "K < length kvs \<Longrightarrow> \<forall>i<K. result_at e cn ctx kvs w i = None \<Longrightarrow>
   result_at e cn ctx kvs w K = Some E \<Longrightarrow>
     apply_params e cn ctx kvs w =
       (Some E,
        map (\<lambda>(k, v). ExecContext_call cn ctx (setStmt k v) None) (take K kvs) @
          [ExecContext_call cn ctx (setStmt (fst (kvs ! K)) (snd (kvs ! K))) (Some E)],
        after_statements e cn ctx (take (Suc K) kvs) w)"
proof (induction kvs arbitrary: w K)
  case Nil
  then show ?case by simp
next
  case (Cons kv kvs)
  obtain k v where kv: "kv = (k, v)" by (cases kv)
  obtain r w1 where ex: "ExecContext e cn ctx (setStmt k v) w = (r, w1)"
    by (cases "ExecContext e cn ctx (setStmt k v) w")
  show ?case
  proof (cases K)
    case 0
    with Cons.prems(3) kv ex have "r = Some E" by (simp add: result_at_0)
    with 0 kv ex show ?thesis
      by (simp add: after_statements_Cons after_statements_Nil)
  next
    case (Suc K')
    with Cons.prems(2) have "result_at e cn ctx (kv # kvs) w 0 = None" by simp
    with kv ex have r: "r = None" by (simp add: result_at_0)
    have lt: "K' < length kvs" using Cons.prems(1) Suc by simp
    have pre: "\<forall>i<K'. result_at e cn ctx kvs w1 i = None"
    proof (intro allI impI)
      fix i assume "i < K'"
      with Cons.prems(2) Suc have "result_at e cn ctx (kv # kvs) w (Suc i) = None" by simp
      with kv ex show "result_at e cn ctx kvs w1 i = None" by (simp add: result_at_Suc)
    qed
    have at: "result_at e cn ctx kvs w1 K' = Some E"
      using Cons.prems(3) Suc kv ex by (simp add: result_at_Suc)
    from Cons.IH [OF lt pre at] Suc kv ex r show ?thesis
      by (simp add: after_statements_Cons)
  qed
qed

lemma apply_params_result:
  assumes "apply_params e cn ctx kvs w = (r, cs, w')"
  shows "(r = None \<longrightarrow>
            (\<forall>i<length kvs. result_at e cn ctx kvs w i = None) \<and>
            w' = after_statements e cn ctx kvs w) \<and>
         (\<forall>err. r = Some err \<longrightarrow>
            (\<exists>n<length kvs. (\<forall>i<n. result_at e cn ctx kvs w i = None) \<and>
               result_at e cn ctx kvs w n = Some err \<and>
               w' = after_statements e cn ctx (take (Suc n) kvs) w))"
proof (cases "\<forall>i<length kvs. result_at e cn ctx kvs w i = None")
  case True
  from apply_params_all_succeed [OF True] assms True show ?thesis by simp
next
  case False
  then have "\<exists>n. n < length kvs \<and> result_at e cn ctx kvs w n \<noteq> None" by blast
  then obtain K where K: "K < length kvs \<and> result_at e cn ctx kvs w K \<noteq> None"
    and least: "\<forall>m<K. \<not> (m < length kvs \<and> result_at e cn ctx kvs w m \<noteq> None)"
    using exists_least_iff [of "\<lambda>n. n < length kvs \<and> result_at e cn ctx kvs w n \<noteq> None"]
    by blast
  from K obtain E where E: "result_at e cn ctx kvs w K = Some E" by blast
  have pre: "\<forall>i<K. result_at e cn ctx kvs w i = None"
  proof (intro allI impI)
    fix i assume "i < K"
    with least K show "result_at e cn ctx kvs w i = None" by auto
  qed
  from K have lt: "K < length kvs" by simp
  from apply_params_first_failure [OF lt pre E] assms
  have "r = Some E" "w' = after_statements e cn ctx (take (Suc K) kvs) w"
    by simp_all
  with lt pre E show ?thesis by blast
qed

subsection \<open>The shape of a run\<close>

text \<open>
  What \<open>establish\<close> and \<open>Connect\<close> can do, as case-analysis rules: each case names
  the collaborator results that lead to it, what is returned and the calls made.
\<close>

lemma establish_cases:
  assumes "establish e kvs c t ctx res w = (r, cs, w')"
  obtains
    (Panicked) "r = Panics" "cs = []"
  | (Invalid) "r = Returns (None, Some (ErrorsNew ''databricks: invalid open session response''))"
      "cs = []" "\<And>sp. res \<noteq> AnyOpenSessionResp sp"
  | (Ready) session h where "res = AnyOpenSessionResp (Some session)"
      "GetSessionId e (SessionHandle session) = Some (Some h)"
      "r = Returns (Some \<lparr>conn_id = SprintGuid (GUID h), conn_cfg = c,
                             conn_client = t, conn_session = session\<rparr>, None)"
      "cs = map (\<lambda>(k, v). ExecContext_call \<lparr>conn_id = SprintGuid (GUID h), conn_cfg = c,
                             conn_client = t, conn_session = session\<rparr> ctx (setStmt k v) None) kvs"
  | (ParamFailed) cn err n where "r = Returns (None, Some err)" "n < length kvs"
      "cs = map (\<lambda>(k, v). ExecContext_call cn ctx (setStmt k v) None) (take n kvs) @
            [ExecContext_call cn ctx (setStmt (fst (kvs ! n)) (snd (kvs ! n))) (Some err)]"
proof (cases res)
  case AnyNil
  with assms show ?thesis by (intro Invalid) (simp_all add: establish_def)
next
  case (AnyOther x)
  with assms show ?thesis by (intro Invalid) (simp_all add: establish_def)
next
  case (AnyOpenSessionResp sp)
  show ?thesis
  proof (cases sp)
    case None
    with assms AnyOpenSessionResp show ?thesis
      by (intro Panicked) (simp_all add: establish_def)
  next
    case (Some session)
    note sess = AnyOpenSessionResp Some
    show ?thesis
    proof (cases "GetSessionId e (SessionHandle session)")
      case None
      with assms sess show ?thesis by (intro Panicked) (simp_all add: establish_def)
    next
      case outer: (Some p)
      show ?thesis
      proof (cases p)
        case None
        with assms sess outer show ?thesis by (intro Panicked) (simp_all add: establish_def)
      next
        case (Some h)
        define cn where "cn = \<lparr>conn_id = SprintGuid (GUID h), conn_cfg = c,
                             conn_client = t, conn_session = session\<rparr>"
        obtain r2 cs2 w2 where ap: "apply_params e cn ctx kvs w = (r2, cs2, w2)"
          by (cases "apply_params e cn ctx kvs w")
        show ?thesis
        proof (cases r2)
          case None
          with assms sess outer Some ap have "r = Returns (Some cn, None)" "cs = cs2"
            by (simp_all add: establish_def cn_def)
          moreover from apply_params_None [OF ap [unfolded None]]
          have "cs2 = map (\<lambda>(k, v). ExecContext_call cn ctx (setStmt k v) None) kvs" .
          ultimately show ?thesis
            using sess outer Some by (intro Ready [of session h]) (simp_all add: cn_def)
        next
          case (Some err)
          with assms sess outer \<open>p = Some h\<close> ap have "r = Returns (None, Some err)" "cs = cs2"
            by (simp_all add: establish_def cn_def)
          moreover from apply_params_Some [OF ap [unfolded Some]]
          obtain n where "n < length kvs"
            "cs2 = map (\<lambda>(k, v). ExecContext_call cn ctx (setStmt k v) None) (take n kvs) @
              [ExecContext_call cn ctx (setStmt (fst (kvs ! n)) (snd (kvs ! n))) (Some err)]"
            by blast
          ultimately show ?thesis
            by (intro ParamFailed [of err n cn]) simp_all
        qed
      qed
    qed
  qed
qed

lemma Connect_cases:
  fixes e :: "('c, 't, 'w) env"
  obtains
    (InitFailed) t err w1 where
      "InitThriftClient e (cfg c) w = ((t, Some err), w1)"
      "Connect e kvs c ctx w =
         (Returns (None, Some (wrapErr err ''error initializing thrift client'')),
          [InitThriftClient_call (cfg c) (Some err)], w1)"
  | (WatchFailed) t w1 st res err w2 where
      "InitThriftClient e (cfg c) w = ((t, None), w1)"
      "Watch e (open_session_sentinel e t ctx (cfg c)) ctx (PollInterval (cfg c))
         (DefaultTimeout (cfg c)) w1 = ((st, res, Some err), w2)"
      "Connect e kvs c ctx w =
         (Returns (None, Some (wrapErrf_connecting err (cfg c))),
          [InitThriftClient_call (cfg c) None,
           Watch_call (open_session_sentinel e t ctx (cfg c)) ctx (PollInterval (cfg c))
             (DefaultTimeout (cfg c)) res (Some err)], w2)"
  | (Opened) t w1 st res w2 r cs w3 where
      "InitThriftClient e (cfg c) w = ((t, None), w1)"
      "Watch e (open_session_sentinel e t ctx (cfg c)) ctx (PollInterval (cfg c))
         (DefaultTimeout (cfg c)) w1 = ((st, res, None), w2)"
      "establish e kvs (cfg c) t ctx res w2 = (r, cs, w3)"
      "Connect e kvs c ctx w =
         (r, InitThriftClient_call (cfg c) None #
             Watch_call (open_session_sentinel e t ctx (cfg c)) ctx (PollInterval (cfg c))
               (DefaultTimeout (cfg c)) res None # cs, w3)"
proof -
  obtain t ierr w1 where init: "InitThriftClient e (cfg c) w = ((t, ierr), w1)"
    by (metis surj_pair)
  show ?thesis
  proof (cases ierr)
    case (Some err)
    with init show ?thesis
      by (intro InitFailed [of t err w1]) (simp_all add: Connect_def)
  next
    case None
    obtain st res werr w2 where
      watch: "Watch e (open_session_sentinel e t ctx (cfg c)) ctx (PollInterval (cfg c))
         (DefaultTimeout (cfg c)) w1 = ((st, res, werr), w2)"
      by (metis surj_pair)
    show ?thesis
    proof (cases werr)
      case (Some err)
      with init None watch show ?thesis
        by (intro WatchFailed [of t w1 st res err w2]) (simp_all add: Connect_def)
    next
      case wnone: None
      obtain r cs w3 where est: "establish e kvs (cfg c) t ctx res w2 = (r, cs, w3)"
        by (metis surj_pair)
      with init None watch wnone show ?thesis
        by (intro Opened [of t w1 st res w2 r cs w3]) (simp_all add: Connect_def)
    qed
  qed
qed

lemma Connect_run:
  fixes e :: "('c, 't, 'w) env"
  obtains
    (Stopped) "executions (calls (Connect e kvs c ctx w)) = []"
      "\<And>cn eo. outcome (Connect e kvs c ctx w) \<noteq> Returns (Some cn, eo)"
  | (Ready) s res cn where
      "outcome (Connect e kvs c ctx w) = Returns (Some cn, None)"
      "calls (Connect e kvs c ctx w) =
         InitThriftClient_call (cfg c) None #
         Watch_call s ctx (PollInterval (cfg c)) (DefaultTimeout (cfg c)) res None #
         map (\<lambda>(k, v). ExecContext_call cn ctx (setStmt k v) None) kvs"
  | (ParamFailed) err n where
      "outcome (Connect e kvs c ctx w) = Returns (None, Some err)"
      "n < length kvs"
      "executions (calls (Connect e kvs c ctx w)) =
         map (\<lambda>(k, v). (setStmt k v, None)) (take n kvs) @
         [(setStmt (fst (kvs ! n)) (snd (kvs ! n)), Some err)]"
proof (cases rule: Connect_cases [where e = e and kvs = kvs and c = c and ctx = ctx and w = w])
  case (InitFailed t err w1)
  then show ?thesis
    by (intro Stopped) (simp_all add: outcome_def calls_def)
next
  case (WatchFailed t w1 st res err w2)
  then show ?thesis
    by (intro Stopped) (simp_all add: outcome_def calls_def)
next
  case (Opened t w1 st res w2 r cs w3)
  from Opened(3) show ?thesis
  proof (cases rule: establish_cases)
    case Panicked
    with Opened(4) show ?thesis
      by (intro Stopped) (simp_all add: outcome_def calls_def)
  next
    case Invalid
    with Opened(4) show ?thesis
      by (intro Stopped) (simp_all add: outcome_def calls_def)
  next
    case (Ready session h)
    with Opened(4) have
      "outcome (Connect e kvs c ctx w) =
         Returns (Some \<lparr>conn_id = SprintGuid (GUID h), conn_cfg = cfg c,
                          conn_client = t, conn_session = session\<rparr>, None)"
      "calls (Connect e kvs c ctx w) =
         InitThriftClient_call (cfg c) None #
         Watch_call (open_session_sentinel e t ctx (cfg c)) ctx (PollInterval (cfg c))
           (DefaultTimeout (cfg c)) res None #
         map (\<lambda>(k, v). ExecContext_call \<lparr>conn_id = SprintGuid (GUID h), conn_cfg = cfg c,
                          conn_client = t, conn_session = session\<rparr> ctx (setStmt k v) None) kvs"
      by (simp_all add: outcome_def calls_def)
    then show ?thesis
      by (rule that(2))
  next
    case (ParamFailed cn err n)
    with Opened(4) show ?thesis
      by (intro that(3) [of err n])
        (simp_all add: outcome_def calls_def executions_append executions_map_None)
  qed
qed

lemma Connect_statements_prefix:
  fixes e :: "('c, 't, 'w) env"
  shows "\<exists>n. map fst (executions (calls (Connect e kvs c ctx w))) =
              take n (map (\<lambda>(k, v). setStmt k v) kvs)"
proof (cases rule: Connect_run [where e = e and kvs = kvs and c = c and ctx = ctx and w = w])
  case Stopped
  then show ?thesis by (intro exI [of _ 0]) simp
next
  case (Ready s res cn)
  then show ?thesis
    by (intro exI [of _ "length kvs"]) (simp add: statements_map_None)
next
  case (ParamFailed err n)
  then show ?thesis
    by (intro exI [of _ "Suc n"])
      (simp add: take_Suc_conv_app_nth case_prod_unfold comp_def take_map)
qed

lemma Connect_success_statements:
  fixes e :: "('c, 't, 'w) env"
  assumes "outcome (Connect e kvs c ctx w) = Returns (Some cn, eo)"
  shows "map fst (executions (calls (Connect e kvs c ctx w))) = map (\<lambda>(k, v). setStmt k v) kvs"
proof (cases rule: Connect_run [where e = e and kvs = kvs and c = c and ctx = ctx and w = w])
  case Stopped
  with assms show ?thesis by simp
next
  case (Ready s res cn)
  then show ?thesis
    by (simp add: statements_map_None)
next
  case (ParamFailed err n)
  with assms show ?thesis by simp
qed

lemma Connect_failed_execution:
  fixes e :: "('c, 't, 'w) env"
  assumes "K < length (executions (calls (Connect e kvs c ctx w)))"
    and "snd (executions (calls (Connect e kvs c ctx w)) ! K) = Some E"
  shows "outcome (Connect e kvs c ctx w) = Returns (None, Some E) \<and>
         map fst (executions (calls (Connect e kvs c ctx w))) =
           map (\<lambda>(k, v). setStmt k v) (take (Suc K) kvs) \<and>
         length (executions (calls (Connect e kvs c ctx w))) = Suc K \<and>
         K < length kvs"
proof (cases rule: Connect_run [where e = e and kvs = kvs and c = c and ctx = ctx and w = w])
  case Stopped
  with assms(1) show ?thesis by simp
next
  case (Ready s res cn)
  then have "executions (calls (Connect e kvs c ctx w)) = map (\<lambda>(k, v). (setStmt k v, None)) kvs"
    by (simp add: executions_map_None)
  with assms show ?thesis
    by (simp add: case_prod_unfold)
next
  case (ParamFailed err n)
  let ?xs = "executions (calls (Connect e kvs c ctx w))"
  have len: "length ?xs = Suc n"
    using ParamFailed(2,3) by simp
  have "K = n"
  proof (rule ccontr)
    assume "K \<noteq> n"
    with assms(1) len have "K < n" by simp
    with ParamFailed(2,3) have "snd (?xs ! K) = None"
      by (simp add: nth_append case_prod_unfold)
    with assms(2) show False by simp
  qed
  with ParamFailed(2,3) assms(2) have E: "err = E"
    by (simp add: nth_append)
  have "map (\<lambda>(k, v). setStmt k v) (take (Suc n) kvs) =
        map (\<lambda>(k, v). setStmt k v) (take n kvs) @ [setStmt (fst (kvs ! n)) (snd (kvs ! n))]"
    using ParamFailed(2) by (simp add: take_Suc_conv_app_nth case_prod_unfold)
  moreover have "map fst ?xs =
        map (\<lambda>(k, v). setStmt k v) (take n kvs) @ [setStmt (fst (kvs ! n)) (snd (kvs ! n))]"
    using ParamFailed(3) by (simp add: case_prod_unfold comp_def)
  ultimately show ?thesis
    using ParamFailed(1,2) E \<open>K = n\<close> len by simp
qed

text \<open>
  A run that gets a response with a session handle: what \<^verbatim>\<open>Connect\<close> returns, logs
  and leaves behind is what the loop does from the world that \<^verbatim>\<open>Watch\<close> left.
\<close>

lemma Connect_opened:
  fixes e :: "('c, 't, 'w) env"
  assumes "InitThriftClient e (cfg c) w = ((t, None), w1)"
    and "Watch e (open_session_sentinel e t ctx (cfg c)) ctx (PollInterval (cfg c))
           (DefaultTimeout (cfg c)) w1 = ((st, AnyOpenSessionResp (Some session), None), w2)"
    and "GetSessionId e (SessionHandle session) = Some (Some h)"
    and "cn = \<lparr>conn_id = SprintGuid (GUID h), conn_cfg = cfg c, conn_client = t,
                conn_session = session\<rparr>"
    and "apply_params e cn ctx kvs w2 = (r, cs, w3)"
  shows "Connect e kvs c ctx w =
           ((case r of None \<Rightarrow> Returns (Some cn, None) | Some err \<Rightarrow> Returns (None, Some err)),
            InitThriftClient_call (cfg c) None #
            Watch_call (open_session_sentinel e t ctx (cfg c)) ctx (PollInterval (cfg c))
              (DefaultTimeout (cfg c)) (AnyOpenSessionResp (Some session)) None # cs,
            w3)"
  using assms by (cases r) (simp_all add: Connect_def establish_def Let_def)

text \<open>
  A run that returns a connection: \<open>ie\<close> and \<open>we\<close> name the errors, \<open>res\<close> the
  result and \<open>w1\<close>, \<open>w2\<close> the worlds that client initialisation and \<^verbatim>\<open>Watch\<close> came
  back with.
\<close>

lemma Connect_success_run:
  fixes e :: "('c, 't, 'w) env"
  assumes "InitThriftClient e (cfg c) w = ((t, ie), w1)"
    and "Watch e (open_session_sentinel e t ctx (cfg c)) ctx (PollInterval (cfg c))
           (DefaultTimeout (cfg c)) w1 = ((st, res, we), w2)"
    and "outcome (Connect e kvs c ctx w) = Returns (Some cn, eo)"
  shows "eo = None \<and> ie = None \<and> we = None \<and>
         res = AnyOpenSessionResp (Some (conn_session cn)) \<and>
         (\<exists>h. GetSessionId e (SessionHandle (conn_session cn)) = Some (Some h) \<and>
              cn = \<lparr>conn_id = SprintGuid (GUID h), conn_cfg = cfg c, conn_client = t,
                     conn_session = conn_session cn\<rparr>) \<and>
         (\<forall>i<length kvs. result_at e cn ctx kvs w2 i = None) \<and>
         world (Connect e kvs c ctx w) = after_statements e cn ctx kvs w2 \<and>
         calls (Connect e kvs c ctx w) =
           InitThriftClient_call (cfg c) None #
           Watch_call (open_session_sentinel e t ctx (cfg c)) ctx (PollInterval (cfg c))
             (DefaultTimeout (cfg c)) res None #
           map (\<lambda>(k, v). ExecContext_call cn ctx (setStmt k v) None) kvs"
proof -
  have ie: "ie = None"
  proof (cases ie)
    case (Some err)
    with assms(1,3) show ?thesis by (simp add: Connect_def outcome_def)
  qed simp
  have we: "we = None"
  proof (cases we)
    case (Some err)
    with assms ie show ?thesis by (simp add: Connect_def outcome_def Let_def)
  qed simp
  obtain r cs w3 where est: "establish e kvs (cfg c) t ctx res w2 = (r, cs, w3)"
    by (metis surj_pair)
  with assms ie we have r: "r = Returns (Some cn, eo)"
    by (simp add: Connect_def outcome_def Let_def)
  from est obtain session h where
    res: "res = AnyOpenSessionResp (Some session)"
    and handle: "GetSessionId e (SessionHandle session) = Some (Some h)"
    and cn: "cn = \<lparr>conn_id = SprintGuid (GUID h), conn_cfg = cfg c, conn_client = t,
                    conn_session = session\<rparr>"
    and eo: "eo = None"
    by (cases rule: establish_cases) (use r in auto)
  obtain r' cs' w3' where ap: "apply_params e cn ctx kvs w2 = (r', cs', w3')"
    by (metis surj_pair)
  note run = Connect_opened [OF assms(1) [unfolded ie] assms(2) [unfolded we res] handle cn ap]
  from run assms(3) have r': "r' = None"
    by (cases r') (simp_all add: outcome_def)
  from apply_params_result [OF ap] r'
  have ok: "\<forall>i<length kvs. result_at e cn ctx kvs w2 i = None"
    and w3': "w3' = after_statements e cn ctx kvs w2"
    by simp_all
  from apply_params_None [OF ap [unfolded r']]
  have cs': "cs' = map (\<lambda>(k, v). ExecContext_call cn ctx (setStmt k v) None) kvs" .
  have "world (Connect e kvs c ctx w) = after_statements e cn ctx kvs w2"
    by (simp add: run world_def w3')
  moreover have "calls (Connect e kvs c ctx w) =
           InitThriftClient_call (cfg c) None #
           Watch_call (open_session_sentinel e t ctx (cfg c)) ctx (PollInterval (cfg c))
             (DefaultTimeout (cfg c)) res None #
           map (\<lambda>(k, v). ExecContext_call cn ctx (setStmt k v) None) kvs"
    by (simp add: run calls_def cs' res)
  moreover have "conn_session cn = session"
    by (simp add: cn)
  ultimately show ?thesis
    using ie we eo res handle cn ok by auto
qed

subsection \<open>Enumerations of the session parameters\<close>

lemma enumerates_length: "enumerates m kvs \<Longrightarrow> length kvs = card (dom m)"
proof -
  assume a: "enumerates m kvs"
  then have "dom m = set (map fst kvs)"
    by (force simp: enumerates_def dom_map_of_conv_image_fst)
  moreover from a have "distinct (map fst kvs)"
    by (simp add: enumerates_def)
  ultimately show ?thesis
    by (metis distinct_card length_map)
qed

lemma enumerates_set: "enumerates m kvs \<Longrightarrow> ((k, v) \<in> set kvs) = (m k = Some v)"
  by (auto simp: enumerates_def)

lemma enumerates_distinct: "enumerates m kvs \<Longrightarrow> distinct kvs"
  by (simp add: enumerates_def distinct_map)

lemma enumerates_mset:
  assumes "enumerates m kvs1" "enumerates m kvs2"
  shows "mset kvs1 = mset kvs2"
proof -
  have "set kvs1 = set kvs2"
    using assms by (auto simp: enumerates_set)
  with assms show ?thesis
    by (simp add: set_eq_iff_mset_eq_distinct [symmetric] enumerates_distinct)
qed

text \<open>Every Go map is finite, so it has an enumeration.\<close>

lemma enumerates_exists:
  assumes "finite (dom m)"
  shows "\<exists>kvs. enumerates m kvs"
proof -
  from finite_distinct_list [OF assms] obtain ks where ks: "set ks = dom m" "distinct ks"
    by (elim exE conjE)
  have a: "map fst (map (\<lambda>k. (k, the (m k))) ks) = ks"
    by (induction ks) simp_all
  have b: "map_of (map (\<lambda>k. (k, the (m k))) ks) = m"
    using ks(1) by (rule map_of_map_keys)
  have "enumerates m (map (\<lambda>k. (k, the (m k))) ks)"
    unfolding enumerates_def a b using ks(2) by simp
  then show ?thesis ..
qed

lemma enumerates_ab:
  "enumerates (SessionParams (cfg \<lparr>cfg = config0 params_ab\<rparr>)) [(''a'', ''1''), (''b'', ''2'')]"
  by (auto simp: enumerates_def params_ab_def config0_def fun_eq_iff)

lemma enumerates_ba:
  "enumerates (SessionParams (cfg \<lparr>cfg = config0 params_ab\<rparr>)) [(''b'', ''2''), (''a'', ''1'')]"
  by (auto simp: enumerates_def params_ab_def config0_def fun_eq_iff)

lemma enumerates_abc:
  "enumerates (SessionParams (cfg \<lparr>cfg = config0 params_abc\<rparr>))
     [(''a'', ''1''), (''b'', ''2''), (''c'', ''3'')]"
  by (auto simp: enumerates_def params_abc_def config0_def fun_eq_iff)

subsection \<open>Runs against the concrete server\<close>

lemmas sample_run =
  Connect_def establish_def outcome_def calls_def server_def run_once_def
  open_session_sentinel_def thrift_GetSessionId_def session0_def no_handle_def
  fails_on_def Let_def

subsection \<open>Validation of the open-session response\<close>

text \<open>
  A result of another shape than \<^verbatim>\<open>*TOpenSessionResp\<close> is rejected with the error of
  line 57, and no statement is executed.
\<close>

lemma Connect_rejects_other_shapes:
  fixes e :: "('c, 't, 'w) env"
  assumes "InitThriftClient e (cfg c) w = ((t, None), w1)"
    and "Watch e (open_session_sentinel e t ctx (cfg c)) ctx (PollInterval (cfg c))
           (DefaultTimeout (cfg c)) w1 = ((st, res, None), w2)"
    and "\<And>sp. res \<noteq> AnyOpenSessionResp sp"
  shows "outcome (Connect e kvs c ctx w) =
           Returns (None, Some (ErrorsNew ''databricks: invalid open session response'')) \<and>
         executions (calls (Connect e kvs c ctx w)) = []"
  using assms by (cases res) (auto simp: Connect_def establish_def outcome_def calls_def Let_def)

text \<open>
  A result of the right shape is never rejected, whatever it holds and whatever the
  accessor does: the run panics, returns a connection, or returns the error of a
  statement. With an absent session handle and the accessor of the Thrift compiler it
  panics.
\<close>

lemma Connect_accepts_open_session_response:
  fixes e :: "('c, 't, 'w) env"
  assumes "InitThriftClient e (cfg c) w = ((t, None), w1)"
    and "Watch e (open_session_sentinel e t ctx (cfg c)) ctx (PollInterval (cfg c))
           (DefaultTimeout (cfg c)) w1 = ((st, AnyOpenSessionResp sp, None), w2)"
  shows "outcome (Connect e kvs c ctx w) = Panics \<or>
         (\<exists>cn. outcome (Connect e kvs c ctx w) = Returns (Some cn, None)) \<or>
         (\<exists>n E. n < length kvs \<and>
            executions (calls (Connect e kvs c ctx w)) ! n =
              (setStmt (fst (kvs ! n)) (snd (kvs ! n)), Some E) \<and>
            outcome (Connect e kvs c ctx w) = Returns (None, Some E))"
proof (cases rule: Connect_cases [where e = e and kvs = kvs and c = c and ctx = ctx and w = w])
  case (InitFailed t' err w1')
  with assms(1) show ?thesis by simp
next
  case (WatchFailed t' w1' st' res err w2')
  with assms show ?thesis by simp
next
  case (Opened t' w1' st' res w2' r cs w3)
  with assms have res: "res = AnyOpenSessionResp sp" by simp
  from Opened(3) show ?thesis
  proof (cases rule: establish_cases)
    case Panicked
    with Opened(4) show ?thesis by (simp add: outcome_def)
  next
    case Invalid
    with res show ?thesis by simp
  next
    case (Ready session h)
    with Opened(4) show ?thesis by (simp add: outcome_def)
  next
    case (ParamFailed cn err n)
    with Opened(4) have "n < length kvs \<and>
            executions (calls (Connect e kvs c ctx w)) ! n =
              (setStmt (fst (kvs ! n)) (snd (kvs ! n)), Some err) \<and>
            outcome (Connect e kvs c ctx w) = Returns (None, Some err)"
      by (simp add: outcome_def calls_def executions_append executions_map_None nth_append)
    then show ?thesis by blast
  qed
qed

lemma Connect_absent_handle:
  fixes e :: "('c, 't, 'w) env"
  assumes "InitThriftClient e (cfg c) w = ((t, None), w1)"
    and "Watch e (open_session_sentinel e t ctx (cfg c)) ctx (PollInterval (cfg c))
           (DefaultTimeout (cfg c)) w1 =
         ((st, AnyOpenSessionResp (Some \<lparr>SessionHandle = None\<rparr>), None), w2)"
    and "GetSessionId e None = None \<or> GetSessionId e None = Some None"
  shows "outcome (Connect e kvs c ctx w) = Panics"
  using assms by (auto simp: Connect_def establish_def outcome_def Let_def)

text \<open>
  Claim C1. The claim asks that a response of the right shape with an absent session
  handle ends in the error \<^verbatim>\<open>databricks: invalid open session response\<close>. The code
  checks the shape only (lines 55-58) and then reads through the absent handle (line
  61): against a server that answers with such a response, \<^verbatim>\<open>Connect\<close> panics
  and returns nothing.
\<close>

theorem Connect_absent_handle_panics:
  "outcome (Connect (server None (Some no_handle, None) (\<lambda>s. None)) []
      \<lparr>cfg = config0 Map.empty\<rparr> () []) = Panics"
  by (simp add: sample_run)

subsection \<open>The initial namespace\<close>

text \<open>
  Claim C2. The catalog and the schema of the request are set independently of each
  other: an empty configuration string gives an absent identifier, a non-empty one a
  present identifier holding exactly that string; a present identifier never holds the
  empty string. This namespace is the one the open-session request carries.
\<close>

theorem initial_namespace_absent_iff_empty:
  "(Catalog c = [] \<longrightarrow> CatalogName (initial_namespace c) = None) \<and>
   (Catalog c \<noteq> [] \<longrightarrow> CatalogName (initial_namespace c) = Some (Catalog c)) \<and>
   (Schema c = [] \<longrightarrow> SchemaName (initial_namespace c) = None) \<and>
   (Schema c \<noteq> [] \<longrightarrow> SchemaName (initial_namespace c) = Some (Schema c)) \<and>
   CatalogName (initial_namespace c) \<noteq> Some [] \<and>
   SchemaName (initial_namespace c) \<noteq> Some [] \<and>
   InitialNamespace (open_session_req c) = Some (initial_namespace c)"
  by (simp add: initial_namespace_def open_session_req_def Let_def)

theorem initial_namespace_absent_iff_empty_witness:
  "Catalog (config0 Map.empty) \<noteq> [] \<and> Schema (config0 Map.empty) = [] \<and>
   InitialNamespace (open_session_req (config0 Map.empty)) =
     Some \<lparr>CatalogName = Some ''c1'', SchemaName = None\<rparr> \<and>
   Catalog ((config0 Map.empty)\<lparr>Catalog := [], Schema := ''a b`c''\<rparr>) = [] \<and>
   Schema ((config0 Map.empty)\<lparr>Catalog := [], Schema := ''a b`c''\<rparr>) \<noteq> [] \<and>
   InitialNamespace (open_session_req ((config0 Map.empty)\<lparr>Catalog := [], Schema := ''a b`c''\<rparr>)) =
     Some \<lparr>CatalogName = None, SchemaName = Some ''a b`c''\<rparr>"
proof -
  let ?c1 = "config0 Map.empty"
  let ?c2 = "(config0 Map.empty)\<lparr>Catalog := [], Schema := ''a b`c''\<rparr>"
  have h1: "Catalog ?c1 \<noteq> []" "Schema ?c1 = []" "Catalog ?c1 = ''c1''"
    by (simp_all add: config0_def)
  have h2: "Catalog ?c2 = []" "Schema ?c2 \<noteq> []" "Schema ?c2 = ''a b`c''"
    by simp_all
  have n1: "initial_namespace ?c1 = \<lparr>CatalogName = Some ''c1'', SchemaName = None\<rparr>"
    using initial_namespace_absent_iff_empty [of ?c1] h1
    by (cases "initial_namespace ?c1") simp
  have n2: "initial_namespace ?c2 = \<lparr>CatalogName = None, SchemaName = Some ''a b`c''\<rparr>"
    using initial_namespace_absent_iff_empty [of ?c2] h2
    by (cases "initial_namespace ?c2") simp
  from initial_namespace_absent_iff_empty [of ?c1] initial_namespace_absent_iff_empty [of ?c2]
    n1 n2 h1 h2
  show ?thesis
    by simp
qed

subsection \<open>Failure of a parameter application\<close>

text \<open>
  Claim C3. The session is open on the connection \<open>cn\<close>, and \<open>w2\<close> is the world the
  \<^verbatim>\<open>Watch\<close> left. When the statements of the entries before position \<open>K\<close> of the
  enumeration (counted from 0) come back without error and the statement of entry
  \<open>K\<close> comes back with \<open>E\<close>, then \<^verbatim>\<open>Connect\<close> returns a nil connection and exactly
  \<open>E\<close>, unwrapped, and it leaves the world the execution of that statement left:
  the collaborator was given the statements of the first \<open>K + 1\<close> entries, in order,
  and none of the entries after position \<open>K\<close>.
\<close>

theorem Connect_parameter_failure:
  fixes e :: "('c, 't, 'w) env"
  assumes "enumerates (SessionParams (cfg c)) kvs"
    and "InitThriftClient e (cfg c) w = ((t, None), w1)"
    and "Watch e (open_session_sentinel e t ctx (cfg c)) ctx (PollInterval (cfg c))
           (DefaultTimeout (cfg c)) w1 = ((st, AnyOpenSessionResp (Some session), None), w2)"
    and "GetSessionId e (SessionHandle session) = Some (Some h)"
    and "cn = \<lparr>conn_id = SprintGuid (GUID h), conn_cfg = cfg c, conn_client = t,
                conn_session = session\<rparr>"
    and "K < length kvs"
    and "\<forall>i<K. result_at e cn ctx kvs w2 i = None"
    and "result_at e cn ctx kvs w2 K = Some E"
  shows "outcome (Connect e kvs c ctx w) = Returns (None, Some E) \<and>
         world (Connect e kvs c ctx w) = after_statements e cn ctx (take (Suc K) kvs) w2 \<and>
         world (Connect e kvs c ctx w) =
           snd (ExecContext e cn ctx (setStmt (fst (kvs ! K)) (snd (kvs ! K)))
                  (after_statements e cn ctx (take K kvs) w2)) \<and>
         executions (calls (Connect e kvs c ctx w)) =
           map (\<lambda>(k, v). (setStmt k v, None)) (take K kvs) @
           [(setStmt (fst (kvs ! K)) (snd (kvs ! K)), Some E)] \<and>
         length (executions (calls (Connect e kvs c ctx w))) = Suc K \<and>
         K < card (dom (SessionParams (cfg c)))"
proof -
  note ap = apply_params_first_failure [OF assms(6,7,8)]
  note run = Connect_opened [OF assms(2,3,4,5) ap]
  have "executions (calls (Connect e kvs c ctx w)) =
           map (\<lambda>(k, v). (setStmt k v, None)) (take K kvs) @
           [(setStmt (fst (kvs ! K)) (snd (kvs ! K)), Some E)]"
    by (simp add: run calls_def executions_append executions_map_None)
  moreover have "outcome (Connect e kvs c ctx w) = Returns (None, Some E)"
    by (simp add: run outcome_def)
  moreover have "world (Connect e kvs c ctx w) = after_statements e cn ctx (take (Suc K) kvs) w2"
    by (simp add: run world_def)
  ultimately show ?thesis
    using assms(6) enumerates_length [OF assms(1)] after_statements_take_Suc [OF assms(6)]
    by simp
qed

theorem Connect_parameter_failure_witness:
  "enumerates (SessionParams (cfg \<lparr>cfg = config0 params_abc\<rparr>))
     [(''a'', ''1''), (''b'', ''2''), (''c'', ''3'')] \<and>
   result_at
       (server None (Some session0, None) (fails_on ''SET `b` = `2`;'' (Foreign ''denied'')))
       \<lparr>conn_id = SprintGuid guid0, conn_cfg = config0 params_abc, conn_client = 7,
          conn_session = session0\<rparr> ()
       [(''a'', ''1''), (''b'', ''2''), (''c'', ''3'')]
       [SeenInit (config0 params_abc), SeenWatch 1000000000 60000000000,
        SeenOpenSession (open_session_req (config0 params_abc))] 0 = None \<and>
   result_at
       (server None (Some session0, None) (fails_on ''SET `b` = `2`;'' (Foreign ''denied'')))
       \<lparr>conn_id = SprintGuid guid0, conn_cfg = config0 params_abc, conn_client = 7,
          conn_session = session0\<rparr> ()
       [(''a'', ''1''), (''b'', ''2''), (''c'', ''3'')]
       [SeenInit (config0 params_abc), SeenWatch 1000000000 60000000000,
        SeenOpenSession (open_session_req (config0 params_abc))] 1 = Some (Foreign ''denied'') \<and>
   outcome (Connect
       (server None (Some session0, None) (fails_on ''SET `b` = `2`;'' (Foreign ''denied'')))
       [(''a'', ''1''), (''b'', ''2''), (''c'', ''3'')] \<lparr>cfg = config0 params_abc\<rparr> () []) =
     Returns (None, Some (Foreign ''denied'')) \<and>
   world (Connect
       (server None (Some session0, None) (fails_on ''SET `b` = `2`;'' (Foreign ''denied'')))
       [(''a'', ''1''), (''b'', ''2''), (''c'', ''3'')] \<lparr>cfg = config0 params_abc\<rparr> () []) =
     [SeenInit (config0 params_abc), SeenWatch 1000000000 60000000000,
      SeenOpenSession (open_session_req (config0 params_abc)),
      SeenExec ''SET `a` = `1`;'', SeenExec ''SET `b` = `2`;''] \<and>
   world (Connect
       (server None (Some session0, None) (fails_on ''SET `b` = `2`;'' (Foreign ''denied'')))
       [(''a'', ''1''), (''b'', ''2''), (''c'', ''3'')] \<lparr>cfg = config0 params_abc\<rparr> () []) =
     after_statements
       (server None (Some session0, None) (fails_on ''SET `b` = `2`;'' (Foreign ''denied'')))
       \<lparr>conn_id = SprintGuid guid0, conn_cfg = config0 params_abc, conn_client = 7,
          conn_session = session0\<rparr> ()
       [(''a'', ''1''), (''b'', ''2'')]
       [SeenInit (config0 params_abc), SeenWatch 1000000000 60000000000,
        SeenOpenSession (open_session_req (config0 params_abc))] \<and>
   executions (calls (Connect
       (server None (Some session0, None) (fails_on ''SET `b` = `2`;'' (Foreign ''denied'')))
       [(''a'', ''1''), (''b'', ''2''), (''c'', ''3'')] \<lparr>cfg = config0 params_abc\<rparr> () [])) =
     [(''SET `a` = `1`;'', None), (''SET `b` = `2`;'', Some (Foreign ''denied''))]"
proof -
  let ?e = "server None (Some session0, None) (fails_on ''SET `b` = `2`;'' (Foreign ''denied''))"
  let ?c = "\<lparr>cfg = config0 params_abc\<rparr>"
  let ?kvs = "[(''a'', ''1''), (''b'', ''2''), (''c'', ''3'')]"
  let ?cn = "\<lparr>conn_id = SprintGuid guid0, conn_cfg = config0 params_abc, conn_client = 7,
               conn_session = session0\<rparr>"
  let ?w2 = "[SeenInit (config0 params_abc), SeenWatch 1000000000 60000000000,
              SeenOpenSession (open_session_req (config0 params_abc))]"
  have en: "enumerates (SessionParams (cfg ?c)) ?kvs"
    by (rule enumerates_abc)
  have init: "InitThriftClient ?e (cfg ?c) [] = ((7, None), [SeenInit (config0 params_abc)])"
    by (simp add: server_def)
  have watch: "Watch ?e (open_session_sentinel ?e 7 () (cfg ?c)) () (PollInterval (cfg ?c))
      (DefaultTimeout (cfg ?c)) [SeenInit (config0 params_abc)] =
      ((0, AnyOpenSessionResp (Some session0), None), ?w2)"
    by (simp add: server_def run_once_def open_session_sentinel_def config0_def)
  have handle: "GetSessionId ?e (SessionHandle session0) = Some (Some \<lparr>GUID = guid0\<rparr>)"
    by (simp add: server_def thrift_GetSessionId_def session0_def)
  have cn: "?cn = \<lparr>conn_id = SprintGuid (GUID \<lparr>GUID = guid0\<rparr>), conn_cfg = cfg ?c,
               conn_client = 7, conn_session = session0\<rparr>"
    by simp
  have k: "(1::nat) < length ?kvs" by simp
  have r0: "result_at ?e ?cn () ?kvs ?w2 0 = None"
    by (simp add: result_at_def after_statements_def server_def fails_on_def setStmt_def)
  have r1: "result_at ?e ?cn () ?kvs ?w2 1 = Some (Foreign ''denied'')"
    by (simp add: result_at_def after_statements_def server_def fails_on_def setStmt_def)
  from r0 have pre: "\<forall>i<1. result_at ?e ?cn () ?kvs ?w2 i = None"
    by simp
  note th = Connect_parameter_failure [OF en init watch handle cn k pre r1]
  from th have out: "outcome (Connect ?e ?kvs ?c () []) = Returns (None, Some (Foreign ''denied''))"
    by blast
  from th have "world (Connect ?e ?kvs ?c () []) = after_statements ?e ?cn () (take (Suc 1) ?kvs) ?w2"
    by blast
  then have after: "world (Connect ?e ?kvs ?c () []) =
      after_statements ?e ?cn () [(''a'', ''1''), (''b'', ''2'')] ?w2"
    by simp
  have seen: "world (Connect ?e ?kvs ?c () []) =
      [SeenInit (config0 params_abc), SeenWatch 1000000000 60000000000,
       SeenOpenSession (open_session_req (config0 params_abc)),
       SeenExec ''SET `a` = `1`;'', SeenExec ''SET `b` = `2`;'']"
    by (simp add: sample_run world_def setStmt_def config0_def)
  have ex: "executions (calls (Connect ?e ?kvs ?c () [])) =
      [(''SET `a` = `1`;'', None), (''SET `b` = `2`;'', Some (Foreign ''denied''))]"
    by (simp add: sample_run setStmt_def)
  from en r0 r1 out seen after ex show ?thesis
    by blast
qed

subsection \<open>Replay of the session parameters\<close>

text \<open>
  Claim C4. A run that returns the connection \<open>cn\<close> has given the collaborator, on
  that connection and from the world the \<^verbatim>\<open>Watch\<close> left, the statement of every
  entry of the session-parameter mapping, one after the other in the order of the
  enumeration, and each came back without error; the world it leaves is the world
  after these executions. Each statement is the text \<^verbatim>\<open>SET `k` = `v`;\<close> built by
  plain concatenation (a backtick inside \<open>k\<close> or \<open>v\<close> stays as it is). Their number
  is the number of entries of the mapping, so none when the mapping is empty, and no
  other call is made after the \<^verbatim>\<open>Watch\<close>.
\<close>

theorem Connect_success_replays_every_parameter:
  fixes e :: "('c, 't, 'w) env"
  assumes "enumerates (SessionParams (cfg c)) kvs"
    and "InitThriftClient e (cfg c) w = ((t, ie), w1)"
    and "Watch e (open_session_sentinel e t ctx (cfg c)) ctx (PollInterval (cfg c))
           (DefaultTimeout (cfg c)) w1 = ((st, res, we), w2)"
    and "outcome (Connect e kvs c ctx w) = Returns (Some cn, eo)"
  shows "eo = None \<and>
         (\<forall>i<length kvs. result_at e cn ctx kvs w2 i = None) \<and>
         world (Connect e kvs c ctx w) =
           foldl (\<lambda>w' (k, v). snd (ExecContext e cn ctx (''SET `'' @ k @ ''` = `'' @ v @ ''`;'') w'))
             w2 kvs \<and>
         calls (Connect e kvs c ctx w) =
           InitThriftClient_call (cfg c) None #
           Watch_call (open_session_sentinel e t ctx (cfg c)) ctx (PollInterval (cfg c))
             (DefaultTimeout (cfg c)) res None #
           map (\<lambda>(k, v). ExecContext_call cn ctx (setStmt k v) None) kvs \<and>
         executions (calls (Connect e kvs c ctx w)) =
           map (\<lambda>(k, v). (''SET `'' @ k @ ''` = `'' @ v @ ''`;'', None)) kvs \<and>
         length (executions (calls (Connect e kvs c ctx w))) =
           card (dom (SessionParams (cfg c))) \<and>
         distinct kvs \<and>
         (\<forall>k v. ((k, v) \<in> set kvs) = (SessionParams (cfg c) k = Some v))"
proof -
  note run = Connect_success_run [OF assms(2,3,4)]
  from run have cs: "calls (Connect e kvs c ctx w) =
           InitThriftClient_call (cfg c) None #
           Watch_call (open_session_sentinel e t ctx (cfg c)) ctx (PollInterval (cfg c))
             (DefaultTimeout (cfg c)) res None #
           map (\<lambda>(k, v). ExecContext_call cn ctx (setStmt k v) None) kvs"
    by blast
  have ex: "executions (calls (Connect e kvs c ctx w)) =
      map (\<lambda>(k, v). (''SET `'' @ k @ ''` = `'' @ v @ ''`;'', None)) kvs"
    using executions_map_None [of cn ctx kvs] by (simp add: cs setStmt_def)
  from run have "world (Connect e kvs c ctx w) = after_statements e cn ctx kvs w2"
    by blast
  then have wo: "world (Connect e kvs c ctx w) =
      foldl (\<lambda>w' (k, v). snd (ExecContext e cn ctx (''SET `'' @ k @ ''` = `'' @ v @ ''`;'') w'))
        w2 kvs"
    by (simp add: after_statements_def setStmt_def)
  have len: "length (executions (calls (Connect e kvs c ctx w))) =
      card (dom (SessionParams (cfg c)))"
    using ex enumerates_length [OF assms(1)] by simp
  from run have "eo = None" and "\<forall>i<length kvs. result_at e cn ctx kvs w2 i = None"
    by blast+
  with cs ex wo len show ?thesis
    using enumerates_distinct [OF assms(1)] enumerates_set [OF assms(1)]
    by simp
qed

theorem Connect_success_replays_every_parameter_witness:
  "enumerates (SessionParams (cfg \<lparr>cfg = config0 params_ab\<rparr>)) [(''a'', ''1''), (''b'', ''2'')] \<and>
   outcome (Connect (server None (Some session0, None) (\<lambda>s. None))
       [(''a'', ''1''), (''b'', ''2'')] \<lparr>cfg = config0 params_ab\<rparr> () []) =
     Returns (Some \<lparr>conn_id = SprintGuid guid0, conn_cfg = config0 params_ab,
                     conn_client = 7, conn_session = session0\<rparr>, None) \<and>
   world (Connect (server None (Some session0, None) (\<lambda>s. None))
       [(''a'', ''1''), (''b'', ''2'')] \<lparr>cfg = config0 params_ab\<rparr> () []) =
     [SeenInit (config0 params_ab), SeenWatch 1000000000 60000000000,
      SeenOpenSession (open_session_req (config0 params_ab)),
      SeenExec ''SET `a` = `1`;'', SeenExec ''SET `b` = `2`;''] \<and>
   world (Connect (server None (Some session0, None) (\<lambda>s. None))
       [(''a'', ''1''), (''b'', ''2'')] \<lparr>cfg = config0 params_ab\<rparr> () []) =
     foldl (\<lambda>w' (k, v). snd (ExecContext (server None (Some session0, None) (\<lambda>s. None))
              \<lparr>conn_id = SprintGuid guid0, conn_cfg = config0 params_ab,
                 conn_client = 7, conn_session = session0\<rparr> ()
              (''SET `'' @ k @ ''` = `'' @ v @ ''`;'') w'))
       [SeenInit (config0 params_ab), SeenWatch 1000000000 60000000000,
        SeenOpenSession (open_session_req (config0 params_ab))]
       [(''a'', ''1''), (''b'', ''2'')] \<and>
   executions (calls (Connect (server None (Some session0, None) (\<lambda>s. None))
       [(''a'', ''1''), (''b'', ''2'')] \<lparr>cfg = config0 params_ab\<rparr> () [])) =
     [(''SET `a` = `1`;'', None), (''SET `b` = `2`;'', None)] \<and>
   card (dom (SessionParams (cfg \<lparr>cfg = config0 params_ab\<rparr>))) = 2"
proof -
  let ?e = "server None (Some session0, None) (\<lambda>s. None)"
  let ?c = "\<lparr>cfg = config0 params_ab\<rparr>"
  let ?r = "Connect ?e [(''a'', ''1''), (''b'', ''2'')] ?c () []"
  let ?cn = "\<lparr>conn_id = SprintGuid guid0, conn_cfg = config0 params_ab,
                     conn_client = 7, conn_session = session0\<rparr>"
  let ?w2 = "[SeenInit (config0 params_ab), SeenWatch 1000000000 60000000000,
              SeenOpenSession (open_session_req (config0 params_ab))]"
  have init: "InitThriftClient ?e (cfg ?c) [] = ((7, None), [SeenInit (config0 params_ab)])"
    by (simp add: server_def)
  have watch: "Watch ?e (open_session_sentinel ?e 7 () (cfg ?c)) () (PollInterval (cfg ?c))
      (DefaultTimeout (cfg ?c)) [SeenInit (config0 params_ab)] =
      ((0, AnyOpenSessionResp (Some session0), None), ?w2)"
    by (simp add: server_def run_once_def open_session_sentinel_def config0_def)
  have out: "outcome ?r = Returns (Some ?cn, None)"
    by (simp add: sample_run)
  have seen: "world ?r =
     [SeenInit (config0 params_ab), SeenWatch 1000000000 60000000000,
      SeenOpenSession (open_session_req (config0 params_ab)),
      SeenExec ''SET `a` = `1`;'', SeenExec ''SET `b` = `2`;'']"
    by (simp add: sample_run world_def setStmt_def config0_def)
  have ex: "executions (calls ?r) =
      [(''SET `a` = `1`;'', None), (''SET `b` = `2`;'', None)]"
    by (simp add: sample_run setStmt_def)
  note replay = Connect_success_replays_every_parameter [OF enumerates_ab init watch out]
  from replay have after: "world ?r =
      foldl (\<lambda>w' (k, v). snd (ExecContext ?e ?cn () (''SET `'' @ k @ ''` = `'' @ v @ ''`;'') w'))
        ?w2 [(''a'', ''1''), (''b'', ''2'')]"
    by blast
  from replay have "length (executions (calls ?r)) =
      card (dom (SessionParams (cfg \<lparr>cfg = config0 params_ab\<rparr>)))"
    by blast
  with ex have "card (dom (SessionParams (cfg \<lparr>cfg = config0 params_ab\<rparr>))) = 2"
    by simp
  with enumerates_ab out seen after ex show ?thesis
    by blast
qed

lemma setStmt_keeps_quote: "setStmt ''a`b'' ''x`; DROP'' = ''SET `a`b` = `x`; DROP`;''"
  by (simp add: setStmt_def)

subsection \<open>Order of the replay\<close>

text \<open>
  Claim C5, as stated, fails: the same mapping can be enumerated in two orders, and two
  runs that differ in nothing else then give the server the statements in different
  orders.
\<close>

theorem Connect_replay_order_counterexample:
  "enumerates (SessionParams (cfg \<lparr>cfg = config0 params_ab\<rparr>)) [(''a'', ''1''), (''b'', ''2'')] \<and>
   enumerates (SessionParams (cfg \<lparr>cfg = config0 params_ab\<rparr>)) [(''b'', ''2''), (''a'', ''1'')] \<and>
   world (Connect (server None (Some session0, None) (\<lambda>s. None))
       [(''a'', ''1''), (''b'', ''2'')] \<lparr>cfg = config0 params_ab\<rparr> () []) =
     [SeenInit (config0 params_ab), SeenWatch 1000000000 60000000000,
      SeenOpenSession (open_session_req (config0 params_ab)),
      SeenExec ''SET `a` = `1`;'', SeenExec ''SET `b` = `2`;''] \<and>
   world (Connect (server None (Some session0, None) (\<lambda>s. None))
       [(''b'', ''2''), (''a'', ''1'')] \<lparr>cfg = config0 params_ab\<rparr> () []) =
     [SeenInit (config0 params_ab), SeenWatch 1000000000 60000000000,
      SeenOpenSession (open_session_req (config0 params_ab)),
      SeenExec ''SET `b` = `2`;'', SeenExec ''SET `a` = `1`;''] \<and>
   map fst (executions (calls (Connect (server None (Some session0, None) (\<lambda>s. None))
       [(''a'', ''1''), (''b'', ''2'')] \<lparr>cfg = config0 params_ab\<rparr> () []))) =
     [''SET `a` = `1`;'', ''SET `b` = `2`;''] \<and>
   map fst (executions (calls (Connect (server None (Some session0, None) (\<lambda>s. None))
       [(''b'', ''2''), (''a'', ''1'')] \<lparr>cfg = config0 params_ab\<rparr> () []))) =
     [''SET `b` = `2`;'', ''SET `a` = `1`;''] \<and>
   world (Connect (server None (Some session0, None) (\<lambda>s. None))
       [(''a'', ''1''), (''b'', ''2'')] \<lparr>cfg = config0 params_ab\<rparr> () []) \<noteq>
   world (Connect (server None (Some session0, None) (\<lambda>s. None))
       [(''b'', ''2''), (''a'', ''1'')] \<lparr>cfg = config0 params_ab\<rparr> () [])"
proof -
  let ?e = "server None (Some session0, None) (\<lambda>s. None)"
  let ?c = "\<lparr>cfg = config0 params_ab\<rparr>"
  have w1: "world (Connect ?e [(''a'', ''1''), (''b'', ''2'')] ?c () []) =
     [SeenInit (config0 params_ab), SeenWatch 1000000000 60000000000,
      SeenOpenSession (open_session_req (config0 params_ab)),
      SeenExec ''SET `a` = `1`;'', SeenExec ''SET `b` = `2`;'']"
    by (simp add: sample_run world_def setStmt_def config0_def)
  have w2: "world (Connect ?e [(''b'', ''2''), (''a'', ''1'')] ?c () []) =
     [SeenInit (config0 params_ab), SeenWatch 1000000000 60000000000,
      SeenOpenSession (open_session_req (config0 params_ab)),
      SeenExec ''SET `b` = `2`;'', SeenExec ''SET `a` = `1`;'']"
    by (simp add: sample_run world_def setStmt_def config0_def)
  have e1: "map fst (executions (calls (Connect ?e [(''a'', ''1''), (''b'', ''2'')] ?c () []))) =
     [''SET `a` = `1`;'', ''SET `b` = `2`;'']"
    by (simp add: sample_run setStmt_def)
  have e2: "map fst (executions (calls (Connect ?e [(''b'', ''2''), (''a'', ''1'')] ?c () []))) =
     [''SET `b` = `2`;'', ''SET `a` = `1`;'']"
    by (simp add: sample_run setStmt_def)
  have "world (Connect ?e [(''a'', ''1''), (''b'', ''2'')] ?c () []) \<noteq>
        world (Connect ?e [(''b'', ''2''), (''a'', ''1'')] ?c () [])"
    unfolding w1 w2 by simp
  with enumerates_ab enumerates_ba w1 w2 e1 e2 show ?thesis
    by blast
qed

text \<open>
  Claim C5, amended. The statements a run executes are an initial part of the
  statements of its enumeration, in that order. A run that returns a connection has
  given the collaborator the statements of all entries in the order of its
  enumeration, and leaves the world these executions leave. Two such runs over the
  same mapping have executed the same statements, each as often in one run as in the
  other; and in the same order when the two enumerations are the same.
\<close>

theorem Connect_replay_follows_enumeration:
  fixes e1 e2 :: "('c, 't, 'w) env"
  assumes "enumerates (SessionParams (cfg c)) kvs1"
    and "enumerates (SessionParams (cfg c)) kvs2"
    and "InitThriftClient e1 (cfg c) w1 = ((t1, ie1), v1)"
    and "Watch e1 (open_session_sentinel e1 t1 ctx1 (cfg c)) ctx1 (PollInterval (cfg c))
           (DefaultTimeout (cfg c)) v1 = ((st1, res1, we1), u1)"
    and "InitThriftClient e2 (cfg c) w2 = ((t2, ie2), v2)"
    and "Watch e2 (open_session_sentinel e2 t2 ctx2 (cfg c)) ctx2 (PollInterval (cfg c))
           (DefaultTimeout (cfg c)) v2 = ((st2, res2, we2), u2)"
  shows "(\<exists>n. map fst (executions (calls (Connect e1 kvs1 c ctx1 w1))) =
               take n (map (\<lambda>(k, v). setStmt k v) kvs1)) \<and>
         (outcome (Connect e1 kvs1 c ctx1 w1) = Returns (Some cn1, None) \<and>
          outcome (Connect e2 kvs2 c ctx2 w2) = Returns (Some cn2, None) \<longrightarrow>
            world (Connect e1 kvs1 c ctx1 w1) = after_statements e1 cn1 ctx1 kvs1 u1 \<and>
            world (Connect e2 kvs2 c ctx2 w2) = after_statements e2 cn2 ctx2 kvs2 u2 \<and>
            (\<forall>i<length kvs1. result_at e1 cn1 ctx1 kvs1 u1 i = None) \<and>
            (\<forall>i<length kvs2. result_at e2 cn2 ctx2 kvs2 u2 i = None) \<and>
            map fst (executions (calls (Connect e1 kvs1 c ctx1 w1))) =
              map (\<lambda>(k, v). setStmt k v) kvs1 \<and>
            map fst (executions (calls (Connect e2 kvs2 c ctx2 w2))) =
              map (\<lambda>(k, v). setStmt k v) kvs2 \<and>
            mset (map fst (executions (calls (Connect e1 kvs1 c ctx1 w1)))) =
            mset (map fst (executions (calls (Connect e2 kvs2 c ctx2 w2)))) \<and>
            (kvs1 = kvs2 \<longrightarrow>
               map fst (executions (calls (Connect e1 kvs1 c ctx1 w1))) =
               map fst (executions (calls (Connect e2 kvs2 c ctx2 w2)))))"
proof (intro conjI impI)
  show "\<exists>n. map fst (executions (calls (Connect e1 kvs1 c ctx1 w1))) =
               take n (map (\<lambda>(k, v). setStmt k v) kvs1)"
    by (rule Connect_statements_prefix)
next
  assume ok: "outcome (Connect e1 kvs1 c ctx1 w1) = Returns (Some cn1, None) \<and>
          outcome (Connect e2 kvs2 c ctx2 w2) = Returns (Some cn2, None)"
  then have o1: "outcome (Connect e1 kvs1 c ctx1 w1) = Returns (Some cn1, None)"
    and o2: "outcome (Connect e2 kvs2 c ctx2 w2) = Returns (Some cn2, None)"
    by simp_all
  note run1 = Connect_success_run [OF assms(3,4) o1]
  note run2 = Connect_success_run [OF assms(5,6) o2]
  from run1 show "world (Connect e1 kvs1 c ctx1 w1) = after_statements e1 cn1 ctx1 kvs1 u1"
    by blast
  from run2 show "world (Connect e2 kvs2 c ctx2 w2) = after_statements e2 cn2 ctx2 kvs2 u2"
    by blast
  from run1 show "\<forall>i<length kvs1. result_at e1 cn1 ctx1 kvs1 u1 i = None"
    by blast
  from run2 show "\<forall>i<length kvs2. result_at e2 cn2 ctx2 kvs2 u2 i = None"
    by blast
  show s1: "map fst (executions (calls (Connect e1 kvs1 c ctx1 w1))) =
      map (\<lambda>(k, v). setStmt k v) kvs1"
    using o1 by (rule Connect_success_statements)
  show s2: "map fst (executions (calls (Connect e2 kvs2 c ctx2 w2))) =
      map (\<lambda>(k, v). setStmt k v) kvs2"
    using o2 by (rule Connect_success_statements)
  have "mset kvs1 = mset kvs2"
    using assms(1,2) by (rule enumerates_mset)
  then have "mset (map (\<lambda>(k, v). setStmt k v) kvs1) = mset (map (\<lambda>(k, v). setStmt k v) kvs2)"
    by (metis mset_map)
  then show "mset (map fst (executions (calls (Connect e1 kvs1 c ctx1 w1)))) =
            mset (map fst (executions (calls (Connect e2 kvs2 c ctx2 w2))))"
    by (simp only: s1 s2)
  assume "kvs1 = kvs2"
  with s1 s2 show "map fst (executions (calls (Connect e1 kvs1 c ctx1 w1))) =
               map fst (executions (calls (Connect e2 kvs2 c ctx2 w2)))"
    by simp
qed

theorem Connect_replay_follows_enumeration_witness:
  "enumerates (SessionParams (cfg \<lparr>cfg = config0 params_ab\<rparr>)) [(''a'', ''1''), (''b'', ''2'')] \<and>
   enumerates (SessionParams (cfg \<lparr>cfg = config0 params_ab\<rparr>)) [(''b'', ''2''), (''a'', ''1'')] \<and>
   outcome (Connect (server None (Some session0, None) (\<lambda>s. None))
       [(''a'', ''1''), (''b'', ''2'')] \<lparr>cfg = config0 params_ab\<rparr> () []) =
     Returns (Some \<lparr>conn_id = SprintGuid guid0, conn_cfg = config0 params_ab,
                     conn_client = 7, conn_session = session0\<rparr>, None) \<and>
   outcome (Connect (server None (Some session0, None) (\<lambda>s. None))
       [(''b'', ''2''), (''a'', ''1'')] \<lparr>cfg = config0 params_ab\<rparr> () [SeenExec ''USE c1'']) =
     Returns (Some \<lparr>conn_id = SprintGuid guid0, conn_cfg = config0 params_ab,
                     conn_client = 7, conn_session = session0\<rparr>, None) \<and>
   world (Connect (server None (Some session0, None) (\<lambda>s. None))
       [(''a'', ''1''), (''b'', ''2'')] \<lparr>cfg = config0 params_ab\<rparr> () []) =
     [SeenInit (config0 params_ab), SeenWatch 1000000000 60000000000,
      SeenOpenSession (open_session_req (config0 params_ab)),
      SeenExec ''SET `a` = `1`;'', SeenExec ''SET `b` = `2`;''] \<and>
   world (Connect (server None (Some session0, None) (\<lambda>s. None))
       [(''b'', ''2''), (''a'', ''1'')] \<lparr>cfg = config0 params_ab\<rparr> () [SeenExec ''USE c1'']) =
     [SeenExec ''USE c1'', SeenInit (config0 params_ab), SeenWatch 1000000000 60000000000,
      SeenOpenSession (open_session_req (config0 params_ab)),
      SeenExec ''SET `b` = `2`;'', SeenExec ''SET `a` = `1`;''] \<and>
   world (Connect (server None (Some session0, None) (\<lambda>s. None))
       [(''a'', ''1''), (''b'', ''2'')] \<lparr>cfg = config0 params_ab\<rparr> () []) =
     after_statements (server None (Some session0, None) (\<lambda>s. None))
       \<lparr>conn_id = SprintGuid guid0, conn_cfg = config0 params_ab,
          conn_client = 7, conn_session = session0\<rparr> () [(''a'', ''1''), (''b'', ''2'')]
       [SeenInit (config0 params_ab), SeenWatch 1000000000 60000000000,
        SeenOpenSession (open_session_req (config0 params_ab))] \<and>
   world (Connect (server None (Some session0, None) (\<lambda>s. None))
       [(''b'', ''2''), (''a'', ''1'')] \<lparr>cfg = config0 params_ab\<rparr> () [SeenExec ''USE c1'']) =
     after_statements (server None (Some session0, None) (\<lambda>s. None))
       \<lparr>conn_id = SprintGuid guid0, conn_cfg = config0 params_ab,
          conn_client = 7, conn_session = session0\<rparr> () [(''b'', ''2''), (''a'', ''1'')]
       [SeenExec ''USE c1'', SeenInit (config0 params_ab), SeenWatch 1000000000 60000000000,
        SeenOpenSession (open_session_req (config0 params_ab))] \<and>
   mset (map fst (executions (calls (Connect (server None (Some session0, None) (\<lambda>s. None))
       [(''a'', ''1''), (''b'', ''2'')] \<lparr>cfg = config0 params_ab\<rparr> () [])))) =
   mset (map fst (executions (calls (Connect (server None (Some session0, None) (\<lambda>s. None))
       [(''b'', ''2''), (''a'', ''1'')] \<lparr>cfg = config0 params_ab\<rparr> () [SeenExec ''USE c1'']))))"
proof -
  let ?e = "server None (Some session0, None) (\<lambda>s. None)"
  let ?c = "\<lparr>cfg = config0 params_ab\<rparr>"
  let ?cn = "\<lparr>conn_id = SprintGuid guid0, conn_cfg = config0 params_ab,
                     conn_client = 7, conn_session = session0\<rparr>"
  let ?u1 = "[SeenInit (config0 params_ab), SeenWatch 1000000000 60000000000,
              SeenOpenSession (open_session_req (config0 params_ab))]"
  let ?u2 = "[SeenExec ''USE c1'', SeenInit (config0 params_ab), SeenWatch 1000000000 60000000000,
              SeenOpenSession (open_session_req (config0 params_ab))]"
  have i1: "InitThriftClient ?e (cfg ?c) [] = ((7, None), [SeenInit (config0 params_ab)])"
    by (simp add: server_def)
  have wa1: "Watch ?e (open_session_sentinel ?e 7 () (cfg ?c)) () (PollInterval (cfg ?c))
      (DefaultTimeout (cfg ?c)) [SeenInit (config0 params_ab)] =
      ((0, AnyOpenSessionResp (Some session0), None), ?u1)"
    by (simp add: server_def run_once_def open_session_sentinel_def config0_def)
  have i2: "InitThriftClient ?e (cfg ?c) [SeenExec ''USE c1''] =
      ((7, None), [SeenExec ''USE c1'', SeenInit (config0 params_ab)])"
    by (simp add: server_def)
  have wa2: "Watch ?e (open_session_sentinel ?e 7 () (cfg ?c)) () (PollInterval (cfg ?c))
      (DefaultTimeout (cfg ?c)) [SeenExec ''USE c1'', SeenInit (config0 params_ab)] =
      ((0, AnyOpenSessionResp (Some session0), None), ?u2)"
    by (simp add: server_def run_once_def open_session_sentinel_def config0_def)
  have o1: "outcome (Connect ?e [(''a'', ''1''), (''b'', ''2'')] ?c () []) =
     Returns (Some ?cn, None)"
    by (simp add: sample_run)
  have o2: "outcome (Connect ?e [(''b'', ''2''), (''a'', ''1'')] ?c () [SeenExec ''USE c1'']) =
     Returns (Some ?cn, None)"
    by (simp add: sample_run)
  note th = Connect_replay_follows_enumeration [OF enumerates_ab enumerates_ba i1 wa1 i2 wa2,
      of ?cn ?cn]
  from th o1 o2 have
    a: "world (Connect ?e [(''a'', ''1''), (''b'', ''2'')] ?c () []) =
          after_statements ?e ?cn () [(''a'', ''1''), (''b'', ''2'')] ?u1"
    and b: "world (Connect ?e [(''b'', ''2''), (''a'', ''1'')] ?c () [SeenExec ''USE c1'']) =
          after_statements ?e ?cn () [(''b'', ''2''), (''a'', ''1'')] ?u2"
    and m: "mset (map fst (executions (calls (Connect ?e
             [(''a'', ''1''), (''b'', ''2'')] ?c () [])))) =
           mset (map fst (executions (calls (Connect ?e
             [(''b'', ''2''), (''a'', ''1'')] ?c () [SeenExec ''USE c1'']))))"
    by blast+
  have a': "world (Connect ?e [(''a'', ''1''), (''b'', ''2'')] ?c () []) =
     [SeenInit (config0 params_ab), SeenWatch 1000000000 60000000000,
      SeenOpenSession (open_session_req (config0 params_ab)),
      SeenExec ''SET `a` = `1`;'', SeenExec ''SET `b` = `2`;'']"
    by (simp add: sample_run world_def setStmt_def config0_def)
  have b': "world (Connect ?e [(''b'', ''2''), (''a'', ''1'')] ?c () [SeenExec ''USE c1'']) =
     [SeenExec ''USE c1'', SeenInit (config0 params_ab), SeenWatch 1000000000 60000000000,
      SeenOpenSession (open_session_req (config0 params_ab)),
      SeenExec ''SET `b` = `2`;'', SeenExec ''SET `a` = `1`;'']"
    by (simp add: sample_run world_def setStmt_def config0_def)
  from enumerates_ab enumerates_ba o1 o2 a b a' b' m show ?thesis
    by blast
qed

text \<open>
  Two entries of one mapping can have the same statement text, since the quoting
  character is not escaped: the statements of a run need not be distinct.
\<close>

lemma setStmt_collision:
  "(''a` = `b'', ''c'') \<noteq> (''a'', ''b` = `c'') \<and>
   setStmt ''a` = `b'' ''c'' = setStmt ''a'' ''b` = `c''"
  by (simp add: setStmt_def)

subsection \<open>Context of the errors\<close>

lemma enriched_connecting: "enriched c (Wrapped err (connecting_msg c))"
proof -
  have "sublist (Host c) (connecting_msg c)"
    unfolding connecting_msg_def by (rule sublist_appendI)
  moreover have "sublist (fmt_d (Port c)) (connecting_msg c)"
    unfolding connecting_msg_def
    using sublist_appendI [of "fmt_d (Port c)" "''error connecting: host='' @ Host c @ '' port=''"
        "'', httpPath='' @ HTTPPath c"]
    by simp
  moreover have "sublist (HTTPPath c) (connecting_msg c)"
    unfolding connecting_msg_def
    using sublist_append_leftI [of "HTTPPath c"
        "''error connecting: host='' @ Host c @ '' port='' @ fmt_d (Port c) @ '', httpPath=''"]
    by simp
  ultimately show ?thesis
    by (simp add: enriched_def)
qed

text \<open>
  Claim C6, as stated, fails: the error of a failed parameter application is returned
  as it is, and carries no host, port or path.
\<close>

theorem Connect_error_context_counterexample:
  "outcome (Connect (server None (Some session0, None) (fails_on ''SET `a` = `1`;'' (Foreign ''denied'')))
       [(''a'', ''1''), (''b'', ''2'')] \<lparr>cfg = config0 params_ab\<rparr> () []) =
     Returns (None, Some (Foreign ''denied'')) \<and>
   \<not> enriched (config0 params_ab) (Foreign ''denied'')"
  by (simp add: sample_run setStmt_def enriched_def)

text \<open>
  Claim C6, amended. A failed client initialisation returns its cause wrapped with the
  fixed message \<^verbatim>\<open>error initializing thrift client\<close>; a failed session open
  returns its cause wrapped with a message that holds host, port and HTTP path; a
  failed parameter application returns the statement's error unchanged.
\<close>

theorem Connect_error_context:
  fixes e :: "('c, 't, 'w) env"
  shows
    "(\<forall>t err w1.
        InitThriftClient e (cfg c) w = ((t, Some err), w1) \<longrightarrow>
        outcome (Connect e kvs c ctx w) =
          Returns (None, Some (Wrapped err ''error initializing thrift client''))) \<and>
     (\<forall>t w1 st res err w2.
        InitThriftClient e (cfg c) w = ((t, None), w1) \<and>
        Watch e (open_session_sentinel e t ctx (cfg c)) ctx (PollInterval (cfg c))
          (DefaultTimeout (cfg c)) w1 = ((st, res, Some err), w2) \<longrightarrow>
        outcome (Connect e kvs c ctx w) =
          Returns (None, Some (Wrapped err
            (''error connecting: host='' @ Host (cfg c) @ '' port='' @ fmt_d (Port (cfg c)) @
             '', httpPath='' @ HTTPPath (cfg c)))) \<and>
        enriched (cfg c) (Wrapped err
            (''error connecting: host='' @ Host (cfg c) @ '' port='' @ fmt_d (Port (cfg c)) @
             '', httpPath='' @ HTTPPath (cfg c)))) \<and>
     (\<forall>K E.
        K < length (executions (calls (Connect e kvs c ctx w))) \<and>
        snd (executions (calls (Connect e kvs c ctx w)) ! K) = Some E \<longrightarrow>
        outcome (Connect e kvs c ctx w) = Returns (None, Some E))"
proof (intro conjI allI impI)
  fix t err w1
  assume "InitThriftClient e (cfg c) w = ((t, Some err), w1)"
  then show "outcome (Connect e kvs c ctx w) =
          Returns (None, Some (Wrapped err ''error initializing thrift client''))"
    by (simp add: Connect_def outcome_def wrapErr_def)
next
  fix t w1 st res err w2
  assume a: "InitThriftClient e (cfg c) w = ((t, None), w1) \<and>
        Watch e (open_session_sentinel e t ctx (cfg c)) ctx (PollInterval (cfg c))
          (DefaultTimeout (cfg c)) w1 = ((st, res, Some err), w2)"
  then show "outcome (Connect e kvs c ctx w) =
          Returns (None, Some (Wrapped err
            (''error connecting: host='' @ Host (cfg c) @ '' port='' @ fmt_d (Port (cfg c)) @
             '', httpPath='' @ HTTPPath (cfg c))))"
    by (simp add: Connect_def outcome_def wrapErr_def wrapErrf_connecting_def
        connecting_msg_def Let_def)
  show "enriched (cfg c) (Wrapped err
            (''error connecting: host='' @ Host (cfg c) @ '' port='' @ fmt_d (Port (cfg c)) @
             '', httpPath='' @ HTTPPath (cfg c)))"
    using enriched_connecting [of "cfg c" err] by (simp add: connecting_msg_def)
next
  fix K E
  assume "K < length (executions (calls (Connect e kvs c ctx w))) \<and>
        snd (executions (calls (Connect e kvs c ctx w)) ! K) = Some E"
  then show "outcome (Connect e kvs c ctx w) = Returns (None, Some E)"
    using Connect_failed_execution [of K e kvs c ctx w E] by blast
qed

theorem Connect_error_context_witness:
  "outcome (Connect (server (Some (Foreign ''no route to host'')) (Some session0, None) (\<lambda>s. None))
       [] \<lparr>cfg = config0 Map.empty\<rparr> () []) =
     Returns (None, Some (Wrapped (Foreign ''no route to host'')
       ''error initializing thrift client'')) \<and>
   outcome (Connect (server None (None, Some (Foreign ''deadline exceeded'')) (\<lambda>s. None))
       [] \<lparr>cfg = config0 Map.empty\<rparr> () []) =
     Returns (None, Some (Wrapped (Foreign ''deadline exceeded'')
       ''error connecting: host=dbc.example.com port=443, httpPath=/sql/1.0/endpoints/e1'')) \<and>
   enriched (config0 Map.empty) (Wrapped (Foreign ''deadline exceeded'')
       ''error connecting: host=dbc.example.com port=443, httpPath=/sql/1.0/endpoints/e1'') \<and>
   outcome (Connect (server None (Some session0, None) (fails_on ''SET `a` = `1`;'' (Foreign ''denied'')))
       [(''a'', ''1''), (''b'', ''2'')] \<lparr>cfg = config0 params_ab\<rparr> () []) =
     Returns (None, Some (Foreign ''denied''))"
proof -
  let ?e1 = "server (Some (Foreign ''no route to host'')) (Some session0, None) (\<lambda>s. None)"
  let ?e2 = "server None (None, Some (Foreign ''deadline exceeded'')) (\<lambda>s. None)"
  let ?e3 = "server None (Some session0, None) (fails_on ''SET `a` = `1`;'' (Foreign ''denied''))"
  let ?c0 = "\<lparr>cfg = config0 Map.empty\<rparr>"
  let ?ab = "\<lparr>cfg = config0 params_ab\<rparr>"
  have i1: "InitThriftClient ?e1 (cfg ?c0) [] =
      ((7, Some (Foreign ''no route to host'')), [SeenInit (config0 Map.empty)])"
    by (simp add: server_def)
  have i2: "InitThriftClient ?e2 (cfg ?c0) [] = ((7, None), [SeenInit (config0 Map.empty)])"
    by (simp add: server_def)
  have w2: "Watch ?e2 (open_session_sentinel ?e2 7 () (cfg ?c0)) () (PollInterval (cfg ?c0))
          (DefaultTimeout (cfg ?c0)) [SeenInit (config0 Map.empty)] =
        ((0, AnyOpenSessionResp None, Some (Foreign ''deadline exceeded'')),
         [SeenInit (config0 Map.empty), SeenWatch 1000000000 60000000000,
          SeenOpenSession (open_session_req (config0 Map.empty))])"
    by (simp add: server_def run_once_def open_session_sentinel_def config0_def)
  have x3: "executions (calls (Connect ?e3 [(''a'', ''1''), (''b'', ''2'')] ?ab () [])) =
      [(''SET `a` = `1`;'', Some (Foreign ''denied''))]"
    by (simp add: sample_run setStmt_def)
  have m: "''error connecting: host='' @ Host (cfg ?c0) @ '' port='' @ fmt_d (Port (cfg ?c0)) @
             '', httpPath='' @ HTTPPath (cfg ?c0) =
           ''error connecting: host=dbc.example.com port=443, httpPath=/sql/1.0/endpoints/e1''"
    by (simp add: config0_def fmt_d_def digits.simps)
  have "outcome (Connect ?e1 [] ?c0 () []) =
     Returns (None, Some (Wrapped (Foreign ''no route to host'')
       ''error initializing thrift client''))"
    using Connect_error_context [of ?e1 ?c0 "[]" "[]" "()"] i1 by blast
  moreover have "outcome (Connect ?e2 [] ?c0 () []) =
     Returns (None, Some (Wrapped (Foreign ''deadline exceeded'')
       ''error connecting: host=dbc.example.com port=443, httpPath=/sql/1.0/endpoints/e1'')) \<and>
    enriched (cfg ?c0) (Wrapped (Foreign ''deadline exceeded'')
       ''error connecting: host=dbc.example.com port=443, httpPath=/sql/1.0/endpoints/e1'')"
    using Connect_error_context [of ?e2 ?c0 "[]" "[]" "()"] i2 w2 unfolding m by blast
  moreover have "outcome (Connect ?e3 [(''a'', ''1''), (''b'', ''2'')] ?ab () []) =
     Returns (None, Some (Foreign ''denied''))"
  proof -
    have "0 < length (executions (calls (Connect ?e3 [(''a'', ''1''), (''b'', ''2'')] ?ab () []))) \<and>
      snd (executions (calls (Connect ?e3 [(''a'', ''1''), (''b'', ''2'')] ?ab () [])) ! 0) =
        Some (Foreign ''denied'')"
      by (simp add: x3)
    then show ?thesis
      using Connect_error_context [of ?e3 ?ab "[]" "[(''a'', ''1''), (''b'', ''2'')]" "()"]
      by blast
  qed
  ultimately show ?thesis
    by simp
qed

subsection \<open>Connection or error\<close>

text \<open>
  Whenever \<^verbatim>\<open>Connect\<close> returns, exactly one of the connection and the error is nil,
  and a connection is returned exactly when every step went through.
\<close>

lemma Connect_returns_connection_or_error:
  fixes e :: "('c, 't, 'w) env"
  assumes "outcome (Connect e kvs c ctx w) = Returns (co, eo)"
  shows "(co = None) = (eo \<noteq> None)"
proof (cases rule: Connect_cases [where e = e and kvs = kvs and c = c and ctx = ctx and w = w])
  case (InitFailed t err w1)
  with assms show ?thesis by (auto simp: outcome_def)
next
  case (WatchFailed t w1 st res err w2)
  with assms show ?thesis by (auto simp: outcome_def)
next
  case (Opened t w1 st res w2 r cs w3)
  from Opened(3) show ?thesis
    by (cases rule: establish_cases) (use Opened(4) assms in \<open>auto simp: outcome_def\<close>)
qed

lemma Connect_connection_iff:
  fixes e :: "('c, 't, 'w) env"
  shows "(outcome (Connect e kvs c ctx w) = Returns (Some cn, None)) =
         (\<exists>t w1 st session w2 h cs w3.
            InitThriftClient e (cfg c) w = ((t, None), w1) \<and>
            Watch e (open_session_sentinel e t ctx (cfg c)) ctx (PollInterval (cfg c))
              (DefaultTimeout (cfg c)) w1 = ((st, AnyOpenSessionResp (Some session), None), w2) \<and>
            GetSessionId e (SessionHandle session) = Some (Some h) \<and>
            cn = \<lparr>conn_id = SprintGuid (GUID h), conn_cfg = cfg c, conn_client = t,
                   conn_session = session\<rparr> \<and>
            apply_params e cn ctx kvs w2 = (None, cs, w3))"
  (is "?L = ?R")
proof
  assume L: ?L
  show ?R
  proof (cases rule: Connect_cases [where e = e and kvs = kvs and c = c and ctx = ctx and w = w])
    case (InitFailed t err w1)
    with L show ?thesis by (simp add: outcome_def)
  next
    case (WatchFailed t w1 st res err w2)
    with L show ?thesis by (simp add: outcome_def)
  next
    case (Opened t w1 st res w2 r cs w3)
    with L have r: "r = Returns (Some cn, None)" by (simp add: outcome_def)
    from Opened(3) r have "\<exists>session h cs w3.
        res = AnyOpenSessionResp (Some session) \<and>
        GetSessionId e (SessionHandle session) = Some (Some h) \<and>
        cn = \<lparr>conn_id = SprintGuid (GUID h), conn_cfg = cfg c, conn_client = t,
                   conn_session = session\<rparr> \<and>
        apply_params e cn ctx kvs w2 = (None, cs, w3)"
      by (auto simp: establish_def Let_def split: any.splits option.splits prod.splits)
    with Opened(1,2) show ?thesis by blast
  qed
next
  assume ?R
  then show ?L
    by (auto simp: Connect_def establish_def outcome_def Let_def)
qed

text \<open>
  Claim C7. The claim asks for a nil connection and a non-nil error on every failure.
  When the response has the right shape and no session handle, \<^verbatim>\<open>Connect\<close> does
  not return an error: it panics at line 61.
\<close>

theorem Connect_absent_handle_returns_no_error:
  "\<nexists>e. outcome (Connect (server None (Some no_handle, None) (\<lambda>s. None))
      [(''a'', ''1''), (''b'', ''2'')] \<lparr>cfg = config0 params_ab\<rparr> () []) = Returns (None, Some e)"
  by (simp add: sample_run)

subsection \<open>The open-session request\<close>

text \<open>
  Every call \<open>establish\<close> makes is a statement execution.
\<close>

lemma establish_only_executes:
  assumes "establish e kvs c t ctx res w = (r, cs, w')"
  shows "length cs = length (executions cs)"
  using assms
proof (cases rule: establish_cases)
  case (Ready session h)
  then show ?thesis by (simp add: executions_map_None)
next
  case (ParamFailed cn err n)
  then show ?thesis by (simp add: executions_append executions_map_None)
qed simp_all

text \<open>
  Claim C8. Once the client is initialised, \<^verbatim>\<open>Connect\<close> calls \<^verbatim>\<open>Watch\<close> with the
  configuration's poll interval and default timeout, on a sentinel whose operation
  hands \<^verbatim>\<open>OpenSession\<close> a request with the configured protocol version, an empty
  configuration map, the namespace of claim C2 and the configured multi-catalog flag.
  What \<^verbatim>\<open>Connect\<close> does next is decided by what this call comes back with (\<open>res\<close>,
  \<open>err\<close> and the world \<open>w2\<close>): with an error it returns that error wrapped and
  leaves the world as the call left it, without an error it goes on from \<open>res\<close> and
  \<open>w2\<close>. Every later call is a statement execution, so there is no second \<^verbatim>\<open>Watch\<close>.
\<close>

theorem Connect_open_session_request:
  fixes e :: "('c, 't, 'w) env"
  assumes "InitThriftClient e (cfg c) w = ((t, None), w1)"
    and "Watch e (open_session_sentinel e t ctx (cfg c)) ctx (PollInterval (cfg c))
           (DefaultTimeout (cfg c)) w1 = ((st, res, err), w2)"
  shows "(\<forall>statusResp w'. OnDoneFn (open_session_sentinel e t ctx (cfg c)) statusResp w' =
              (case OpenSession e t ctx
                      \<lparr>ClientProtocol = ThriftProtocolVersion (cfg c),
                       Configuration = Map.empty,
                       InitialNamespace = Some
                         \<lparr>CatalogName = (if Catalog (cfg c) = [] then None else Some (Catalog (cfg c))),
                          SchemaName = (if Schema (cfg c) = [] then None else Some (Schema (cfg c)))\<rparr>,
                       CanUseMultipleCatalogs_ptr = Some (CanUseMultipleCatalogs (cfg c))\<rparr> w' of
                 ((resp, err'), w'') \<Rightarrow> ((AnyOpenSessionResp resp, err'), w''))) \<and>
         (\<exists>rest.
            calls (Connect e kvs c ctx w) =
              InitThriftClient_call (cfg c) None #
              Watch_call (open_session_sentinel e t ctx (cfg c)) ctx (PollInterval (cfg c))
                (DefaultTimeout (cfg c)) res err # rest \<and>
            length rest = length (executions rest) \<and>
            (outcome (Connect e kvs c ctx w), rest, world (Connect e kvs c ctx w)) =
              (case err of
                 Some x \<Rightarrow>
                   (Returns (None, Some (Wrapped x
                      (''error connecting: host='' @ Host (cfg c) @ '' port='' @
                       fmt_d (Port (cfg c)) @ '', httpPath='' @ HTTPPath (cfg c)))), [], w2)
               | None \<Rightarrow> establish e kvs (cfg c) t ctx res w2))"
proof (intro conjI)
  show "\<forall>statusResp w'. OnDoneFn (open_session_sentinel e t ctx (cfg c)) statusResp w' =
              (case OpenSession e t ctx
                      \<lparr>ClientProtocol = ThriftProtocolVersion (cfg c),
                       Configuration = Map.empty,
                       InitialNamespace = Some
                         \<lparr>CatalogName = (if Catalog (cfg c) = [] then None else Some (Catalog (cfg c))),
                          SchemaName = (if Schema (cfg c) = [] then None else Some (Schema (cfg c)))\<rparr>,
                       CanUseMultipleCatalogs_ptr = Some (CanUseMultipleCatalogs (cfg c))\<rparr> w' of
                 ((resp, err'), w'') \<Rightarrow> ((AnyOpenSessionResp resp, err'), w''))"
    by (simp add: open_session_sentinel_def open_session_req_def initial_namespace_def Let_def)
next
  show "\<exists>rest.
            calls (Connect e kvs c ctx w) =
              InitThriftClient_call (cfg c) None #
              Watch_call (open_session_sentinel e t ctx (cfg c)) ctx (PollInterval (cfg c))
                (DefaultTimeout (cfg c)) res err # rest \<and>
            length rest = length (executions rest) \<and>
            (outcome (Connect e kvs c ctx w), rest, world (Connect e kvs c ctx w)) =
              (case err of
                 Some x \<Rightarrow>
                   (Returns (None, Some (Wrapped x
                      (''error connecting: host='' @ Host (cfg c) @ '' port='' @
                       fmt_d (Port (cfg c)) @ '', httpPath='' @ HTTPPath (cfg c)))), [], w2)
               | None \<Rightarrow> establish e kvs (cfg c) t ctx res w2)"
  proof (cases err)
    case (Some x)
    with assms show ?thesis
      by (intro exI [of _ "[]"])
        (simp add: Connect_def Let_def outcome_def calls_def world_def wrapErr_def
          wrapErrf_connecting_def connecting_msg_def)
  next
    case None
    obtain r cs w3 where est: "establish e kvs (cfg c) t ctx res w2 = (r, cs, w3)"
      by (metis surj_pair)
    from establish_only_executes [OF est] assms None est show ?thesis
      by (intro exI [of _ cs]) (simp add: Connect_def Let_def outcome_def calls_def world_def)
  qed
qed

theorem Connect_open_session_request_witness:
  "InitThriftClient (server None (Some session0, None) (\<lambda>s. None))
     (cfg \<lparr>cfg = config0 Map.empty\<rparr>) [] = ((7, None), [SeenInit (config0 Map.empty)]) \<and>
   Watch (server None (Some session0, None) (\<lambda>s. None))
     (open_session_sentinel (server None (Some session0, None) (\<lambda>s. None)) 7 ()
        (cfg \<lparr>cfg = config0 Map.empty\<rparr>)) ()
     (PollInterval (cfg \<lparr>cfg = config0 Map.empty\<rparr>))
     (DefaultTimeout (cfg \<lparr>cfg = config0 Map.empty\<rparr>)) [SeenInit (config0 Map.empty)] =
     ((0, AnyOpenSessionResp (Some session0), None),
      [SeenInit (config0 Map.empty), SeenWatch 1000000000 60000000000,
       SeenOpenSession
         \<lparr>ClientProtocol = 42245, Configuration = Map.empty,
          InitialNamespace = Some \<lparr>CatalogName = Some ''c1'', SchemaName = None\<rparr>,
          CanUseMultipleCatalogs_ptr = Some True\<rparr>]) \<and>
   calls (Connect (server None (Some session0, None) (\<lambda>s. None)) []
       \<lparr>cfg = config0 Map.empty\<rparr> () []) =
     [InitThriftClient_call (config0 Map.empty) None,
      Watch_call
        (open_session_sentinel (server None (Some session0, None) (\<lambda>s. None)) 7 ()
           (config0 Map.empty)) ()
        1000000000 60000000000 (AnyOpenSessionResp (Some session0)) None] \<and>
   outcome (Connect (server None (Some session0, None) (\<lambda>s. None)) []
       \<lparr>cfg = config0 Map.empty\<rparr> () []) =
     Returns (Some \<lparr>conn_id = SprintGuid guid0, conn_cfg = config0 Map.empty,
                     conn_client = 7, conn_session = session0\<rparr>, None) \<and>
   world (Connect (server None (Some session0, None) (\<lambda>s. None)) []
       \<lparr>cfg = config0 Map.empty\<rparr> () []) =
     [SeenInit (config0 Map.empty), SeenWatch 1000000000 60000000000,
      SeenOpenSession
        \<lparr>ClientProtocol = 42245, Configuration = Map.empty,
         InitialNamespace = Some \<lparr>CatalogName = Some ''c1'', SchemaName = None\<rparr>,
         CanUseMultipleCatalogs_ptr = Some True\<rparr>]"
proof -
  let ?e = "server None (Some session0, None) (\<lambda>s. None)"
  let ?c = "\<lparr>cfg = config0 Map.empty\<rparr>"
  let ?req = "\<lparr>ClientProtocol = 42245, Configuration = Map.empty,
          InitialNamespace = Some \<lparr>CatalogName = Some ''c1'', SchemaName = None\<rparr>,
          CanUseMultipleCatalogs_ptr = Some True\<rparr>"
  let ?w2 = "[SeenInit (config0 Map.empty), SeenWatch 1000000000 60000000000,
              SeenOpenSession ?req]"
  let ?cn = "\<lparr>conn_id = SprintGuid guid0, conn_cfg = config0 Map.empty,
                     conn_client = 7, conn_session = session0\<rparr>"
  have i: "InitThriftClient ?e (cfg ?c) [] = ((7, None), [SeenInit (config0 Map.empty)])"
    by (simp add: server_def)
  have wa: "Watch ?e (open_session_sentinel ?e 7 () (cfg ?c)) () (PollInterval (cfg ?c))
      (DefaultTimeout (cfg ?c)) [SeenInit (config0 Map.empty)] =
      ((0, AnyOpenSessionResp (Some session0), None), ?w2)"
    by (simp add: server_def run_once_def open_session_sentinel_def open_session_req_def
        initial_namespace_def config0_def)
  have est: "establish ?e [] (cfg ?c) 7 () (AnyOpenSessionResp (Some session0)) ?w2 =
      (Returns (Some ?cn, None), [], ?w2)"
    by (simp add: establish_def server_def thrift_GetSessionId_def session0_def)
  from Connect_open_session_request [OF i wa, of "[]"] obtain rest where
    c: "calls (Connect ?e [] ?c () []) =
      InitThriftClient_call (cfg ?c) None #
      Watch_call (open_session_sentinel ?e 7 () (cfg ?c)) () (PollInterval (cfg ?c))
        (DefaultTimeout (cfg ?c)) (AnyOpenSessionResp (Some session0)) None # rest"
    and r: "(outcome (Connect ?e [] ?c () []), rest, world (Connect ?e [] ?c () [])) =
      establish ?e [] (cfg ?c) 7 () (AnyOpenSessionResp (Some session0)) ?w2"
    by auto
  have seen: "world (Connect ?e [] ?c () []) = ?w2"
    by (simp add: sample_run world_def open_session_req_def initial_namespace_def config0_def)
  from r est have "outcome (Connect ?e [] ?c () []) = Returns (Some ?cn, None)"
    and "rest = []"
    by simp_all
  moreover note seen
  moreover from c \<open>rest = []\<close> have "calls (Connect ?e [] ?c () []) =
     [InitThriftClient_call (config0 Map.empty) None,
      Watch_call (open_session_sentinel ?e 7 () (config0 Map.empty)) ()
        1000000000 60000000000 (AnyOpenSessionResp (Some session0)) None]"
    by (simp add: config0_def)
  ultimately show ?thesis
    using i wa by simp
qed

subsection \<open>Rendering of the session identity\<close>

lemma hexdigit_inj:
  assumes "a < 16" "b < 16" "hexdigit a = hexdigit b"
  shows "a = b"
proof -
  have "distinct ''0123456789abcdef''" by simp
  moreover have "a < length ''0123456789abcdef''" "b < length ''0123456789abcdef''"
    using assms by simp_all
  ultimately show ?thesis
    using assms(3) unfolding hexdigit_def by (simp only: nth_eq_iff_index_eq)
qed

lemma hex_byte_inj:
  assumes "hex_byte a = hex_byte b"
  shows "a = b"
proof -
  have bound: "unat x div 16 < 16" "unat x mod 16 < 16" for x :: byte
  proof -
    have "unat x < 2 ^ LENGTH(8)" by (rule unsigned_less)
    then have "unat x < 256" by simp
    then show "unat x div 16 < 16" by simp
    show "unat x mod 16 < 16" by simp
  qed
  from assms have "hexdigit (unat a div 16) = hexdigit (unat b div 16)"
    and "hexdigit (unat a mod 16) = hexdigit (unat b mod 16)"
    by (simp_all add: hex_byte_def)
  then have "unat a div 16 = unat b div 16" "unat a mod 16 = unat b mod 16"
    using bound by (auto intro: hexdigit_inj)
  then have "unat a = unat b"
    by (metis div_mult_mod_eq)
  then show ?thesis
    by (simp add: word_unat_eq_iff)
qed

lemma hex_Cons: "hex (b # bs) = hex_byte b @ hex bs"
  by (simp add: hex_def)

lemma length_hex: "length (hex bs) = 2 * length bs"
  by (induction bs) (simp_all add: hex_def hex_byte_def)

lemma hex_inj: "hex as = hex bs \<Longrightarrow> as = bs"
proof (induction as arbitrary: bs)
  case Nil
  then have "length (hex bs) = 0" by (simp add: hex_def)
  then show ?case by (simp add: length_hex)
next
  case (Cons a as)
  show ?case
  proof (cases bs)
    case Nil
    with Cons.prems have "length (hex (a # as)) = 0" by (simp add: hex_def)
    then show ?thesis by (simp add: length_hex)
  next
    case (Cons b bs')
    with Cons.prems have "hex_byte a @ hex as = hex_byte b @ hex bs'"
      by (simp add: hex_Cons)
    moreover have "length (hex_byte a) = length (hex_byte b)"
      by (simp add: hex_byte_def)
    ultimately have "hex_byte a = hex_byte b" "hex as = hex bs'"
      by simp_all
    with Cons.IH Cons show ?thesis
      by (simp add: hex_byte_inj)
  qed
qed

lemma split_guid:
  "bts = take 4 bts @ take 2 (drop 4 bts) @ take 2 (drop 6 bts) @ take 2 (drop 8 bts) @ drop 10 bts"
proof -
  have "drop 8 bts = take 2 (drop 8 bts) @ drop 10 bts"
    using append_take_drop_id [of 2 "drop 8 bts"] by simp
  moreover have "drop 6 bts = take 2 (drop 6 bts) @ drop 8 bts"
    using append_take_drop_id [of 2 "drop 6 bts"] by simp
  moreover have "drop 4 bts = take 2 (drop 4 bts) @ drop 6 bts"
    using append_take_drop_id [of 2 "drop 4 bts"] by simp
  moreover have "bts = take 4 bts @ drop 4 bts"
    by simp
  ultimately show ?thesis
    by metis
qed

lemma SprintGuid_guid0: "SprintGuid guid0 = ''01234567-89ab-cdef-0011-223344556677''"
  by (simp add: SprintGuid_def guid0_def hex_def hex_byte_def hexdigit_def)

lemma SprintGuid_guid1: "SprintGuid guid1 = ''01234567-89ab-cdef-0011-223344556678''"
  by (simp add: SprintGuid_def guid1_def hex_def hex_byte_def hexdigit_def)

text \<open>
  Claim C9. On identities of sixteen bytes the rendering is injective: two identities
  have the same text exactly when they are the same. (That equal identities have equal
  texts holds of every function.)
\<close>

theorem SprintGuid_injective:
  assumes "length a = 16" and "length b = 16"
  shows "(SprintGuid a = SprintGuid b) = (a = b)"
proof
  assume eq: "SprintGuid a = SprintGuid b"
  have l1: "length (hex (take 4 a)) = length (hex (take 4 b))"
    and l2: "length (hex (take 2 (drop 4 a))) = length (hex (take 2 (drop 4 b)))"
    and l3: "length (hex (take 2 (drop 6 a))) = length (hex (take 2 (drop 6 b)))"
    and l4: "length (hex (take 2 (drop 8 a))) = length (hex (take 2 (drop 8 b)))"
    using assms by (simp_all add: length_hex)
  from eq have
    "hex (take 4 a) @ (''-'' @ hex (take 2 (drop 4 a)) @ ''-'' @ hex (take 2 (drop 6 a)) @ ''-'' @
       hex (take 2 (drop 8 a)) @ ''-'' @ hex (drop 10 a)) =
     hex (take 4 b) @ (''-'' @ hex (take 2 (drop 4 b)) @ ''-'' @ hex (take 2 (drop 6 b)) @ ''-'' @
       hex (take 2 (drop 8 b)) @ ''-'' @ hex (drop 10 b))"
    by (simp add: SprintGuid_def)
  with l1 have p1: "hex (take 4 a) = hex (take 4 b)"
    and r1: "hex (take 2 (drop 4 a)) @ (''-'' @ hex (take 2 (drop 6 a)) @ ''-'' @
       hex (take 2 (drop 8 a)) @ ''-'' @ hex (drop 10 a)) =
       hex (take 2 (drop 4 b)) @ (''-'' @ hex (take 2 (drop 6 b)) @ ''-'' @
       hex (take 2 (drop 8 b)) @ ''-'' @ hex (drop 10 b))"
    by simp_all
  from r1 l2 have p2: "hex (take 2 (drop 4 a)) = hex (take 2 (drop 4 b))"
    and r2: "hex (take 2 (drop 6 a)) @ (''-'' @ hex (take 2 (drop 8 a)) @ ''-'' @ hex (drop 10 a)) =
       hex (take 2 (drop 6 b)) @ (''-'' @ hex (take 2 (drop 8 b)) @ ''-'' @ hex (drop 10 b))"
    by simp_all
  from r2 l3 have p3: "hex (take 2 (drop 6 a)) = hex (take 2 (drop 6 b))"
    and r3: "hex (take 2 (drop 8 a)) @ (''-'' @ hex (drop 10 a)) =
       hex (take 2 (drop 8 b)) @ (''-'' @ hex (drop 10 b))"
    by simp_all
  from r3 l4 have p4: "hex (take 2 (drop 8 a)) = hex (take 2 (drop 8 b))"
    and p5: "hex (drop 10 a) = hex (drop 10 b)"
    by simp_all
  from p1 p2 p3 p4 p5 have
    "take 4 a = take 4 b" "take 2 (drop 4 a) = take 2 (drop 4 b)"
    "take 2 (drop 6 a) = take 2 (drop 6 b)" "take 2 (drop 8 a) = take 2 (drop 8 b)"
    "drop 10 a = drop 10 b"
    by (simp_all add: hex_inj)
  then show "a = b"
    using split_guid [of a] split_guid [of b] by simp
next
  assume "a = b"
  then show "SprintGuid a = SprintGuid b" by simp
qed

theorem SprintGuid_injective_witness:
  "length guid0 = 16 \<and> length guid1 = 16 \<and> guid0 \<noteq> guid1 \<and>
   SprintGuid guid0 = ''01234567-89ab-cdef-0011-223344556677'' \<and>
   SprintGuid guid1 = ''01234567-89ab-cdef-0011-223344556678'' \<and>
   SprintGuid guid0 \<noteq> SprintGuid guid1"
proof -
  have l: "length guid0 = 16" "length guid1 = 16"
    by (simp_all add: guid0_def guid1_def)
  have ne: "guid0 \<noteq> guid1"
    by (simp add: guid0_def guid1_def)
  from SprintGuid_injective [OF l] ne have "SprintGuid guid0 \<noteq> SprintGuid guid1"
    by simp
  with l ne SprintGuid_guid0 SprintGuid_guid1 show ?thesis
    by simp
qed

subsection \<open>NewConnector\<close>

lemma apply_options_returns:
  "\<forall>opt\<in>set options. returns_normally opt \<Longrightarrow>
     apply_options c options = Returns (foldl (\<lambda>c opt. applied opt c) c options)"
proof (induction options arbitrary: c)
  case Nil
  then show ?case by simp
next
  case (Cons opt options)
  from Cons.prems have "returns_normally opt" by simp
  then obtain f where f: "opt = Some f" and ret: "\<forall>c. f c \<noteq> Panics"
    by (auto simp: returns_normally_def split: option.splits)
  from ret obtain c' where c': "f c = Returns c'"
    by (cases "f c") auto
  from Cons.prems have "\<forall>opt\<in>set options. returns_normally opt" by simp
  from Cons.IH [OF this, of c'] f c' show ?case
    by (simp add: applied_def)
qed

text \<open>Every option the constructors of the file make returns normally.\<close>

lemma With_options_return_normally:
  "returns_normally (WithServerHostname host) \<and> returns_normally (WithPort port) \<and>
   returns_normally (WithAccessToken token) \<and> returns_normally (WithHTTPPath path) \<and>
   returns_normally (WithMaxRows n) \<and> returns_normally (WithTimeout n) \<and>
   returns_normally (WithInitialNamespace catalog schema) \<and>
   returns_normally (WithUserAgentEntry entry) \<and> returns_normally (WithSessionParams params)"
  by (simp add: returns_normally_def WithServerHostname_def WithPort_def WithAccessToken_def
      WithHTTPPath_def WithMaxRows_def WithTimeout_def WithInitialNamespace_def
      WithUserAgentEntry_def WithSessionParams_def)

lemma applied_With_options:
  "applied (WithServerHostname host) c = c\<lparr>Host := host\<rparr> \<and>
   applied (WithPort port) c = c\<lparr>Port := port\<rparr> \<and>
   applied (WithAccessToken token) c = c\<lparr>AccessToken := token\<rparr> \<and>
   applied (WithHTTPPath path) c = c\<lparr>HTTPPath := path\<rparr> \<and>
   applied (WithMaxRows n) c = (if n \<noteq> 0 then c\<lparr>MaxRows := n\<rparr> else c) \<and>
   applied (WithTimeout n) c = c\<lparr>QueryTimeoutSeconds := n\<rparr> \<and>
   applied (WithInitialNamespace catalog schema) c = c\<lparr>Catalog := catalog, Schema := schema\<rparr> \<and>
   applied (WithUserAgentEntry entry) c = c\<lparr>UserAgentEntry := entry\<rparr> \<and>
   applied (WithSessionParams params) c = c\<lparr>SessionParams := params\<rparr>"
  by (simp add: applied_def WithServerHostname_def WithPort_def WithAccessToken_def
      WithHTTPPath_def WithMaxRows_def WithTimeout_def WithInitialNamespace_def
      WithUserAgentEntry_def WithSessionParams_def)

text \<open>
  Claim C10, as stated, fails: a nil option is a value of the option type, and with it
  in the list \<^verbatim>\<open>NewConnector\<close> panics at the call of line 94 and returns nothing.
\<close>

theorem NewConnector_nil_option_counterexample:
  "NewConnector (config0 Map.empty) [WithPort 8443, None] = Panics"
  by (simp add: NewConnector_def WithPort_def)

text \<open>
  Claim C10, amended. For every default configuration and every list of options that
  return normally (none is nil, none panics), as all options made by the constructors
  of the file do, \<^verbatim>\<open>NewConnector\<close> returns a connector and a nil error; the
  connector's configuration is the default configuration with the options applied
  from left to right, unchecked.
\<close>

theorem NewConnector_total:
  assumes "\<forall>opt\<in>set options. returns_normally opt"
  shows "NewConnector WithDefaults options =
           Returns (Some \<lparr>cfg = foldl (\<lambda>c opt. applied opt c) WithDefaults options\<rparr>, None)"
  using apply_options_returns [OF assms, of WithDefaults] by (simp add: NewConnector_def)

theorem NewConnector_total_witness:
  "returns_normally (WithPort 1) \<and> returns_normally (WithPort 2) \<and>
   returns_normally (WithMaxRows 0) \<and>
   NewConnector (config0 Map.empty) [WithPort 1, WithPort 2, WithMaxRows 0] =
     Returns (Some \<lparr>cfg = (config0 Map.empty)\<lparr>Port := 2\<rparr>\<rparr>, None) \<and>
   NewConnector (config0 Map.empty) [] = Returns (Some \<lparr>cfg = config0 Map.empty\<rparr>, None)"
proof -
  have r: "returns_normally (WithPort 1)" "returns_normally (WithPort 2)"
    "returns_normally (WithMaxRows 0)"
    using With_options_return_normally by blast+
  then have all: "\<forall>opt\<in>set [WithPort 1, WithPort 2, WithMaxRows 0]. returns_normally opt"
    by simp
  have none: "\<forall>opt\<in>set ([] :: connOption list). returns_normally opt"
    by simp
  from NewConnector_total [OF all, of "config0 Map.empty"]
  have "NewConnector (config0 Map.empty) [WithPort 1, WithPort 2, WithMaxRows 0] =
     Returns (Some \<lparr>cfg = (config0 Map.empty)\<lparr>Port := 2\<rparr>\<rparr>, None)"
    by (simp add: applied_With_options)
  moreover from NewConnector_total [OF none, of "config0 Map.empty"]
  have "NewConnector (config0 Map.empty) [] = Returns (Some \<lparr>cfg = config0 Map.empty\<rparr>, None)"
    by simp
  ultimately show ?thesis
    using r by simp
qed

end
